theory Spec2Isabelle
  imports Complex_Main "HOL-Library.Multiset" "HOL-Library.Log_Nat"
begin

section \<open>Numbers\<close>

text \<open>
  The source computes with JavaScript numbers, IEEE 754 binary64. Every stored field is
  modelled as a finite \<open>real\<close>. The result of a division is a \<open>jsnum\<close>: a finite
  value, one of the two infinities, or NaN. Negative zero is not modelled.

  The operations of this section are exact. They carry the ledger (the transactions, the
  usage tick a return applies, the counts of the inventory status and of the combination
  check) and the cost projection: the properties proved of those are about guards,
  copies and equalities between runs, and the ledger's counts are whole numbers, on which
  binary64 is exact up to \<open>2^53\<close>. The health percentage, the predictions and the
  procurement functions work on measured values and money, so each of their operations is
  rounded to binary64, with the operations of the next section.
\<close>

datatype jsnum = Fin real | PosInf | NegInf | NaN

definition jdiv :: "real \<Rightarrow> real \<Rightarrow> jsnum" where
  "jdiv a b =
     (if b \<noteq> 0 then Fin (a / b)
      else if 0 < a then PosInf
      else if a < 0 then NegInf
      else NaN)"

fun jneg :: "jsnum \<Rightarrow> jsnum" where
  "jneg (Fin a) = Fin (- a)"
| "jneg PosInf = NegInf"
| "jneg NegInf = PosInf"
| "jneg NaN = NaN"

fun jadd :: "jsnum \<Rightarrow> jsnum \<Rightarrow> jsnum" where
  "jadd NaN _ = NaN"
| "jadd _ NaN = NaN"
| "jadd (Fin a) (Fin b) = Fin (a + b)"
| "jadd PosInf NegInf = NaN"
| "jadd NegInf PosInf = NaN"
| "jadd PosInf _ = PosInf"
| "jadd _ PosInf = PosInf"
| "jadd NegInf _ = NegInf"
| "jadd _ NegInf = NegInf"

definition jsub :: "jsnum \<Rightarrow> jsnum \<Rightarrow> jsnum" where
  "jsub a b = jadd a (jneg b)"

fun jsign_inf :: "bool \<Rightarrow> real \<Rightarrow> jsnum" where
  "jsign_inf pos b =
     (if b = 0 then NaN
      else if (0 < b) = pos then PosInf
      else NegInf)"

fun jmul :: "jsnum \<Rightarrow> jsnum \<Rightarrow> jsnum" where
  "jmul NaN _ = NaN"
| "jmul _ NaN = NaN"
| "jmul (Fin a) (Fin b) = Fin (a * b)"
| "jmul PosInf (Fin b) = jsign_inf True b"
| "jmul NegInf (Fin b) = jsign_inf False b"
| "jmul (Fin a) PosInf = jsign_inf True a"
| "jmul (Fin a) NegInf = jsign_inf False a"
| "jmul PosInf PosInf = PosInf"
| "jmul NegInf NegInf = PosInf"
| "jmul PosInf NegInf = NegInf"
| "jmul NegInf PosInf = NegInf"

fun jquot :: "jsnum \<Rightarrow> jsnum \<Rightarrow> jsnum" where
  "jquot NaN _ = NaN"
| "jquot _ NaN = NaN"
| "jquot (Fin a) (Fin b) = jdiv a b"
| "jquot (Fin a) _ = Fin 0"
| "jquot PosInf (Fin b) = (if 0 \<le> b then PosInf else NegInf)"
| "jquot NegInf (Fin b) = (if 0 \<le> b then NegInf else PosInf)"
| "jquot _ _ = NaN"

fun jlt :: "jsnum \<Rightarrow> jsnum \<Rightarrow> bool" where
  "jlt NaN _ = False"
| "jlt _ NaN = False"
| "jlt (Fin a) (Fin b) = (a < b)"
| "jlt NegInf NegInf = False"
| "jlt NegInf _ = True"
| "jlt PosInf _ = False"
| "jlt (Fin a) PosInf = True"
| "jlt (Fin a) NegInf = False"

definition jgt :: "jsnum \<Rightarrow> jsnum \<Rightarrow> bool" where
  "jgt a b = jlt b a"

fun jle :: "jsnum \<Rightarrow> jsnum \<Rightarrow> bool" where
  "jle NaN _ = False"
| "jle _ NaN = False"
| "jle a b = (a = b \<or> jlt a b)"

fun jfloor :: "jsnum \<Rightarrow> jsnum" where
  "jfloor (Fin a) = Fin (of_int \<lfloor>a\<rfloor>)"
| "jfloor x = x"

section \<open>Rounding to binary64\<close>

text \<open>
  \<open>rne\<close> rounds a real to the nearest integer, a tie to the even one. \<open>expo x\<close>
  is the binary exponent of \<open>x\<close>, the \<open>e\<close> with \<open>2^e \<le> |x| < 2^(e+1)\<close>.
  \<open>fl x\<close> is the binary64 number nearest to \<open>x\<close>: \<open>x\<close> rounded to 53
  significant bits, a tie to the even significand. The exponent is not bounded.
\<close>

definition rne :: "real \<Rightarrow> int" where
  "rne x =
     (let f = \<lfloor>x\<rfloor>; d = x - of_int f
      in if d < 1/2 then f else if 1/2 < d then f + 1 else if even f then f else f + 1)"

definition expo :: "real \<Rightarrow> int" where
  "expo x =
     (if 1 \<le> \<bar>x\<bar> then int (floorlog 2 (nat \<lfloor>\<bar>x\<bar>\<rfloor>)) - 1
      else - int (floorlog 2 (nat \<lceil>1 / \<bar>x\<bar>\<rceil> - 1)))"

definition fl :: "real \<Rightarrow> real" where
  "fl x =
     (if x = 0 then 0
      else let q = 2 powi (expo x - 52)
           in of_int (rne (x / q)) * q)"

text \<open>The source's \<open>+\<close>, \<open>-\<close>, \<open>*\<close> and \<open>/\<close> on finite numbers.\<close>

definition fadd :: "real \<Rightarrow> real \<Rightarrow> real" where
  "fadd a b = fl (a + b)"

definition fsub :: "real \<Rightarrow> real \<Rightarrow> real" where
  "fsub a b = fl (a - b)"

definition fmul :: "real \<Rightarrow> real \<Rightarrow> real" where
  "fmul a b = fl (a * b)"

definition fdiv :: "real \<Rightarrow> real \<Rightarrow> jsnum" where
  "fdiv a b =
     (if b \<noteq> 0 then Fin (fl (a / b))
      else if 0 < a then PosInf
      else if a < 0 then NegInf
      else NaN)"

text \<open>Rounding the finite result of an exact operation on \<open>jsnum\<close>.\<close>

fun jfl :: "jsnum \<Rightarrow> jsnum" where
  "jfl (Fin a) = Fin (fl a)"
| "jfl x = x"

section \<open>Data model (types/equipment.ts, types/inventory.ts)\<close>

datatype EquipmentCategory = platform | payload | sensor

datatype DegradationType = cycles | hours | time

record Consumable =
  c_id :: string
  c_name :: string
  c_unit :: string
  costPerUnit :: real
  stockLevel :: real
  minimumStock :: real
  reorderPoint :: real

record DegradationParams =
  deg_type :: DegradationType
  maxValue :: real
  currentValue :: real
  replacementCost :: real
  degradationRate :: real
  lastUpdated :: string

record ConsumableLink =
  link_id :: string
  unitsPerUse :: real

datatype DocumentType = doc_manual | doc_specification | doc_certification

record Document =
  doc_id :: string
  doc_type :: DocumentType
  url :: string

record Equipment =
  eq_id :: string
  category :: EquipmentCategory
  eq_name :: string
  description :: string
  manufacturer :: string
  modelNumber :: string
  acquisitionCost :: real
  quantity :: real
  inUse :: real
  consumables :: "ConsumableLink list"
  degradation :: DegradationParams
  personnelRequired :: real
  dateAdded :: string
  lastUsed :: "string option"
  specifications :: "(string \<times> (string + real)) list"
  documents :: "Document list"

datatype InventoryTransactionType = acquisition | deployment | return | disposal

record InventoryTransaction =
  tx_id :: string
  equipmentId :: string
  tx_type :: InventoryTransactionType
  tx_quantity :: real
  tx_date :: string
  tx_notes :: string
  tx_cost :: "real option"
  personnelId :: "string option"

datatype ConsumableTransactionType = purchase | use | c_disposal

record ConsumableTransaction =
  ctx_id :: string
  consumableId :: string
  ctx_type :: ConsumableTransactionType
  ctx_quantity :: real
  ctx_date :: string
  ctx_cost :: "real option"
  associatedEquipmentId :: "string option"

section \<open>Degradation tracker (services/degradationTracker.ts)\<close>

text \<open>
  The optional fields of the usage argument. A field that is absent, and one that is
  present with the value zero, are both falsy in the source's \<open>if (usage.cycles)\<close>.
\<close>

record Usage =
  u_cycles :: "real option"
  u_hours :: "real option"
  u_days :: "real option"

text \<open>
  \<open>calculateDegradation\<close>. The clock read by \<open>new Date().toISOString()\<close> is the
  parameter \<open>now\<close>.
\<close>

definition calculateDegradation :: "string \<Rightarrow> Equipment \<Rightarrow> Usage \<Rightarrow> DegradationParams" where
  "calculateDegradation now equipment usage =
     (let d = degradation equipment;
          newDegradation =
            (case deg_type d of
               cycles \<Rightarrow>
                 (case u_cycles usage of
                    None \<Rightarrow> d
                  | Some n \<Rightarrow>
                      if n = 0 then d
                      else d\<lparr>currentValue := max 0 (currentValue d - n * degradationRate d)\<rparr>)
             | hours \<Rightarrow>
                 (case u_hours usage of
                    None \<Rightarrow> d
                  | Some n \<Rightarrow>
                      if n = 0 then d
                      else d\<lparr>currentValue := max 0 (currentValue d - n * degradationRate d)\<rparr>)
             | time \<Rightarrow>
                 (case u_days usage of
                    None \<Rightarrow> d
                  | Some n \<Rightarrow>
                      if n = 0 then d
                      else d\<lparr>currentValue := max 0 (currentValue d - n * degradationRate d)\<rparr>))
      in newDegradation\<lparr>lastUpdated := now\<rparr>)"

datatype HealthStatus = good | fair | poor | critical

record HealthReport =
  status :: HealthStatus
  health_message :: string
  needsMaintenance :: bool

text \<open>
  \<open>(degradation.currentValue / degradation.maxValue) * 100\<close>, the quotient and
  the product each rounded.
\<close>

definition healthPercentage :: "Equipment \<Rightarrow> jsnum" where
  "healthPercentage equipment =
     jfl (jmul (fdiv (currentValue (degradation equipment)) (maxValue (degradation equipment)))
            (Fin 100))"

definition getHealthStatus :: "Equipment \<Rightarrow> HealthReport" where
  "getHealthStatus equipment =
     (if jgt (healthPercentage equipment) (Fin 75) then
        \<lparr>status = good, health_message = ''Equipment is in good condition'', needsMaintenance = False\<rparr>
      else if jgt (healthPercentage equipment) (Fin 50) then
        \<lparr>status = fair, health_message = ''Equipment is functioning adequately'', needsMaintenance = False\<rparr>
      else if jgt (healthPercentage equipment) (Fin 25) then
        \<lparr>status = poor, health_message = ''Equipment requires attention'', needsMaintenance = True\<rparr>
      else
        \<lparr>status = critical, health_message = ''Immediate maintenance required'', needsMaintenance = True\<rparr>)"

text \<open>
  \<open>predictReplacement\<close> reads the clock with \<open>new Date()\<close>, moves the date by
  \<open>setDate(getDate() + daysRemaining)\<close> and formats it with \<open>toISOString()\<close>,
  which raises \<open>RangeError\<close> for an invalid date. What the host contributes is its
  clock as a local time value in milliseconds and the offset it subtracts from a local
  time value to get UTC.
\<close>

datatype date_error = RangeError

record Host =
  localTime :: real
  localTZA :: "real \<Rightarrow> real"

definition msPerDay :: real where
  "msPerDay = 86400000"

text \<open>
  The time value of the date after \<open>setDate\<close>, for a whole number of days:
  \<open>MakeDate (MakeDay ...)\<close> moves the local time by that many days, \<open>UTC\<close>
  subtracts the offset, and \<open>TimeClip\<close> makes the date invalid (\<open>None\<close>) beyond
  8.64e15 milliseconds from the epoch. Days that are not finite give an invalid date.
\<close>

definition timeAfterDays :: "Host \<Rightarrow> jsnum \<Rightarrow> real option" where
  "timeAfterDays host days =
     (case days of
        Fin n \<Rightarrow>
          (let t = localTime host + n * msPerDay;
               u = t - localTZA host t
           in if \<bar>u\<bar> \<le> 8640000000000000 then Some u else None)
      | _ \<Rightarrow> None)"

text \<open>
  The result of a prediction. \<open>estimatedReplacementDate\<close> is the time value whose
  ISO rendering the source returns.
\<close>

record ReplacementPrediction =
  daysUntilReplacement :: jsnum
  estimatedReplacementDate :: real
  currentHealthPercentage :: jsnum

definition dailyRate :: "DegradationParams \<Rightarrow> real" where
  "dailyRate d =
     (case deg_type d of
        cycles \<Rightarrow> fmul (degradationRate d) 1
      | hours \<Rightarrow> fmul (degradationRate d) 24
      | time \<Rightarrow> degradationRate d)"

definition predictReplacement :: "Host \<Rightarrow> Equipment \<Rightarrow> date_error + ReplacementPrediction" where
  "predictReplacement host equipment =
     (let d = degradation equipment;
          currentHealth = jfl (jmul (fdiv (currentValue d) (maxValue d)) (Fin 100));
          daysRemaining = jfloor (fdiv (currentValue d) (dailyRate d))
      in case timeAfterDays host daysRemaining of
           None \<Rightarrow> Inl RangeError
         | Some replacementDate \<Rightarrow>
             Inr \<lparr>daysUntilReplacement = daysRemaining,
                  estimatedReplacementDate = replacementDate,
                  currentHealthPercentage = currentHealth\<rparr>)"

section \<open>Inventory manager (services/inventoryManager.ts)\<close>

record InventoryStatus =
  available :: real
  deployed :: real
  maintenance :: real
  degradationStatus :: jsnum

definition getInventoryStatus :: "Equipment \<Rightarrow> InventoryStatus" where
  "getInventoryStatus equipment =
     (let degradation_report = getHealthStatus equipment;
          inMaintenance = (if needsMaintenance degradation_report then 1 else 0)
      in \<lparr>available = quantity equipment - inUse equipment - inMaintenance,
          deployed = inUse equipment,
          maintenance = inMaintenance,
          degradationStatus =
            jfl (jmul (fdiv (currentValue (degradation equipment)) (maxValue (degradation equipment)))
                   (Fin 100))\<rparr>)"

record EquipmentResult =
  success :: bool
  message :: string
  updatedEquipment :: "Equipment option"

text \<open>
  \<open>processEquipmentTransaction\<close>. \<open>equipment.find\<close> returns the first element with
  the transaction's id, as \<open>List.find\<close> does. The record returned on success is the
  copy \<open>{ ...equipmentItem }\<close> after the assignments of the matching case.
\<close>

definition processEquipmentTransaction ::
    "string \<Rightarrow> InventoryTransaction \<Rightarrow> Equipment list \<Rightarrow> EquipmentResult" where
  "processEquipmentTransaction now transaction equipment =
     (case find (\<lambda>e. eq_id e = equipmentId transaction) equipment of
        None \<Rightarrow> \<lparr>success = False, message = ''Equipment not found'', updatedEquipment = None\<rparr>
      | Some equipmentItem \<Rightarrow>
          (let st = getInventoryStatus equipmentItem;
               ok = (\<lambda>u. \<lparr>success = True, message = ''Transaction processed successfully'',
                            updatedEquipment = Some u\<rparr>)
           in case tx_type transaction of
                acquisition \<Rightarrow>
                  ok (equipmentItem\<lparr>quantity := quantity equipmentItem + tx_quantity transaction\<rparr>)
              | deployment \<Rightarrow>
                  if available st < tx_quantity transaction then
                    \<lparr>success = False, message = ''Insufficient available equipment'',
                     updatedEquipment = None\<rparr>
                  else
                    ok (equipmentItem\<lparr>inUse := inUse equipmentItem + tx_quantity transaction\<rparr>)
              | return \<Rightarrow>
                  if inUse equipmentItem < tx_quantity transaction then
                    \<lparr>success = False, message = ''Invalid return quantity'',
                     updatedEquipment = None\<rparr>
                  else
                    (let u = equipmentItem\<lparr>inUse := inUse equipmentItem - tx_quantity transaction\<rparr>
                     in ok (u\<lparr>degradation :=
                                calculateDegradation now u
                                  \<lparr>u_cycles = Some 1, u_hours = None, u_days = None\<rparr>\<rparr>))
              | disposal \<Rightarrow>
                  if quantity equipmentItem < tx_quantity transaction then
                    \<lparr>success = False, message = ''Invalid disposal quantity'',
                     updatedEquipment = None\<rparr>
                  else
                    ok (equipmentItem\<lparr>quantity := quantity equipmentItem - tx_quantity transaction\<rparr>)))"

record ConsumableResult =
  c_success :: bool
  c_message :: string
  updatedConsumable :: "Consumable option"

text \<open>
  What \<open>triggerReorder\<close> writes to the console: the consumable's name and the three
  numbers of the logged object.
\<close>

record ReorderLog =
  log_name :: string
  log_currentStock :: real
  log_reorderPoint :: real
  suggestedOrderQuantity :: real

definition triggerReorder :: "Consumable \<Rightarrow> ReorderLog" where
  "triggerReorder consumable =
     \<lparr>log_name = c_name consumable,
      log_currentStock = stockLevel consumable,
      log_reorderPoint = reorderPoint consumable,
      suggestedOrderQuantity = reorderPoint consumable * 2 - stockLevel consumable\<rparr>"

text \<open>
  \<open>processConsumableTransaction\<close> returns its result together with the lines it wrote
  to the console.
\<close>

definition processConsumableTransaction ::
    "ConsumableTransaction \<Rightarrow> Consumable list \<Rightarrow> ConsumableResult \<times> ReorderLog list" where
  "processConsumableTransaction transaction consumables_list =
     (case find (\<lambda>c. c_id c = consumableId transaction) consumables_list of
        None \<Rightarrow>
          (\<lparr>c_success = False, c_message = ''Consumable not found'', updatedConsumable = None\<rparr>, [])
      | Some consumable \<Rightarrow>
          (let finish = (\<lambda>u.
                 (\<lparr>c_success = True, c_message = ''Transaction processed successfully'',
                   updatedConsumable = Some u\<rparr>,
                  if stockLevel u \<le> reorderPoint u then [triggerReorder u] else []))
           in case ctx_type transaction of
                purchase \<Rightarrow>
                  finish (consumable\<lparr>stockLevel := stockLevel consumable + ctx_quantity transaction\<rparr>)
              | use \<Rightarrow>
                  if stockLevel consumable < ctx_quantity transaction then
                    (\<lparr>c_success = False, c_message = ''Insufficient stock'',
                      updatedConsumable = None\<rparr>, [])
                  else
                    finish (consumable\<lparr>stockLevel := stockLevel consumable - ctx_quantity transaction\<rparr>)
              | c_disposal \<Rightarrow>
                  if stockLevel consumable < ctx_quantity transaction then
                    (\<lparr>c_success = False, c_message = ''Invalid disposal quantity'',
                      updatedConsumable = None\<rparr>, [])
                  else
                    finish (consumable\<lparr>stockLevel := stockLevel consumable - ctx_quantity transaction\<rparr>)))"

datatype ItemType = equipment_item | consumable_item

datatype Priority = high | medium | low

datatype NeedStatus = pending | approved | ordered | received

text \<open>
  The \<open>reason\<close> strings of the source, with the numbers its template strings
  interpolate kept as numbers:
  \<^item> \<open>LowStockLevel\<close>: 'Low stock level';
  \<^item> \<open>UpcomingReplacement\<close>: 'Upcoming replacement needed';
  \<^item> \<open>BelowReorderPoint\<close>: 'Stock below reorder point';
  \<^item> \<open>CriticalReplacement d\<close>: 'Critical replacement needed within d days';
  \<^item> \<open>BelowMinimum s m\<close>: 'Stock level below minimum (s/m)'.
\<close>

datatype Reason =
    LowStockLevel
  | UpcomingReplacement
  | BelowReorderPoint
  | CriticalReplacement jsnum
  | BelowMinimum real real

record ProcurementNeed =
  need_id :: string
  itemType :: ItemType
  itemId :: string
  need_quantity :: real
  estimatedCost :: real
  priority :: Priority
  reason :: Reason
  requestDate :: string
  need_status :: NeedStatus

definition priorityOrder :: "Priority \<Rightarrow> nat" where
  "priorityOrder p = (case p of high \<Rightarrow> 0 | medium \<Rightarrow> 1 | low \<Rightarrow> 2)"

text \<open>
  One iteration of the first \<open>forEach\<close> of \<open>generateProcurementNeeds\<close>. The
  identifiers drawn from \<open>crypto.randomUUID()\<close> are the parameter \<open>uuid\<close>: the need
  pushed when \<open>needs\<close> holds \<open>k\<close> elements gets \<open>uuid k\<close>. The call of
  \<open>predictReplacement\<close> comes before the test, and its \<open>RangeError\<close> ends the
  whole function.
\<close>

definition equipmentNeed ::
    "Host \<Rightarrow> (nat \<Rightarrow> string) \<Rightarrow> string \<Rightarrow> ProcurementNeed list \<Rightarrow> Equipment
       \<Rightarrow> date_error + ProcurementNeed list" where
  "equipmentNeed host uuid now needs eq =
     (let st = getInventoryStatus eq
      in case predictReplacement host eq of
           Inl err \<Rightarrow> Inl err
         | Inr replacementPrediction \<Rightarrow>
             (let soon = jlt (daysUntilReplacement replacementPrediction) (Fin 30)
              in if available st < 2 \<or> soon then
                   Inr (needs @
                     [\<lparr>need_id = uuid (length needs),
                       itemType = equipment_item,
                       itemId = eq_id eq,
                       need_quantity = max (2 - available st) 0 + (if soon then 1 else 0),
                       estimatedCost = acquisitionCost eq,
                       priority = (if available st = 0 then high else medium),
                       reason = (if available st < 2 then LowStockLevel else UpcomingReplacement),
                       requestDate = now,
                       need_status = pending\<rparr>])
                 else Inr needs))"

fun equipmentNeeds ::
    "Host \<Rightarrow> (nat \<Rightarrow> string) \<Rightarrow> string \<Rightarrow> ProcurementNeed list \<Rightarrow> Equipment list
       \<Rightarrow> date_error + ProcurementNeed list" where
  "equipmentNeeds host uuid now needs [] = Inr needs"
| "equipmentNeeds host uuid now needs (eq # rest) =
     (case equipmentNeed host uuid now needs eq of
        Inl err \<Rightarrow> Inl err
      | Inr needs' \<Rightarrow> equipmentNeeds host uuid now needs' rest)"

text \<open>One iteration of the second \<open>forEach\<close>.\<close>

definition consumableNeed ::
    "(nat \<Rightarrow> string) \<Rightarrow> string \<Rightarrow> ProcurementNeed list \<Rightarrow> Consumable \<Rightarrow> ProcurementNeed list" where
  "consumableNeed uuid now needs consumable =
     (if stockLevel consumable \<le> reorderPoint consumable then
        (let orderQuantity = fsub (fmul (reorderPoint consumable) 2) (stockLevel consumable)
         in needs @
            [\<lparr>need_id = uuid (length needs),
              itemType = consumable_item,
              itemId = c_id consumable,
              need_quantity = orderQuantity,
              estimatedCost = fmul orderQuantity (costPerUnit consumable),
              priority = (if stockLevel consumable \<le> minimumStock consumable then high else medium),
              reason = BelowReorderPoint,
              requestDate = now,
              need_status = pending\<rparr>])
      else needs)"

text \<open>
  \<open>generateProcurementNeeds\<close>. The comparator of the final \<open>sort\<close> is the
  difference of two keys, and \<open>Array.prototype.sort\<close> is stable, so the result is the
  stable sort by that key.
\<close>

definition generateProcurementNeeds ::
    "Host \<Rightarrow> (nat \<Rightarrow> string) \<Rightarrow> string \<Rightarrow> Equipment list \<Rightarrow> Consumable list
       \<Rightarrow> date_error + ProcurementNeed list" where
  "generateProcurementNeeds host uuid now equipment consumables_list =
     (case equipmentNeeds host uuid now [] equipment of
        Inl err \<Rightarrow> Inl err
      | Inr needs \<Rightarrow>
          Inr (sort_key (\<lambda>n. priorityOrder (priority n))
                 (foldl (consumableNeed uuid now) needs consumables_list)))"

section \<open>Helpers (utils/helpers.ts)\<close>

text \<open>
  \<open>calculateMaintenanceCost\<close>. The literal \<open>0.05\<close> of the source is the binary64
  number nearest to 5/100.
\<close>

definition calculateMaintenanceCost :: "Equipment \<Rightarrow> jsnum" where
  "calculateMaintenanceCost equipment =
     (let baseMaintenanceCost = fmul (acquisitionCost equipment) (fl 0.05);
          degradationFactor =
            fdiv (currentValue (degradation equipment)) (maxValue (degradation equipment))
      in jfl (jmul (Fin baseMaintenanceCost) (jfl (jsub (Fin 2) degradationFactor))))"

record UsagePattern =
  cyclesPerDay :: "real option"
  hoursPerDay :: "real option"

text \<open>\<open>v || dflt\<close> on an optional number: absent and zero both give the default.\<close>

definition or_default :: "real option \<Rightarrow> real \<Rightarrow> real" where
  "or_default v dflt = (case v of None \<Rightarrow> dflt | Some x \<Rightarrow> if x = 0 then dflt else x)"

record MaintenancePrediction =
  daysUntilMaintenance :: jsnum
  mp_estimatedCost :: jsnum
  mp_priority :: Priority

text \<open>
  \<open>predictMaintenanceNeeds\<close>. The \<open>default\<close> branch of the source's switch is
  unreachable for the three degradation types. \<open>maintenanceDate\<close> is a \<open>Date\<close>
  object moved by \<open>setDate\<close> and returned as it is, valid or not: nothing formats it,
  so nothing is raised, and it is left out.
\<close>

definition predictMaintenanceNeeds :: "Equipment \<Rightarrow> UsagePattern \<Rightarrow> MaintenancePrediction" where
  "predictMaintenanceNeeds equipment usagePattern =
     (let d = degradation equipment;
          remainingValue = currentValue d;
          threshold = fmul (maxValue d) 0.25;
          days =
            (case deg_type d of
               cycles \<Rightarrow>
                 jfloor (fdiv (fsub remainingValue threshold)
                           (fmul (degradationRate d) (or_default (cyclesPerDay usagePattern) 1)))
             | hours \<Rightarrow>
                 jfloor (fdiv (fsub remainingValue threshold)
                           (fmul (degradationRate d) (or_default (hoursPerDay usagePattern) 8)))
             | time \<Rightarrow>
                 jfloor (fdiv (fsub remainingValue threshold) (degradationRate d)))
      in \<lparr>daysUntilMaintenance = days,
          mp_estimatedCost = calculateMaintenanceCost equipment,
          mp_priority =
            (if jle days (Fin 7) then high else if jle days (Fin 30) then medium else low)\<rparr>)"

text \<open>
  \<open>Array.prototype.sort\<close> with a comparator function, as a stable insertion sort:
  an element moves behind another one only where the comparator is positive. For a
  comparator that is not a consistent order (here: when a ratio is NaN) ECMAScript
  leaves the order to the implementation; the result is a permutation in every case.
\<close>

fun insert_by :: "('a \<Rightarrow> 'a \<Rightarrow> jsnum) \<Rightarrow> 'a \<Rightarrow> 'a list \<Rightarrow> 'a list" where
  "insert_by cmp x [] = [x]"
| "insert_by cmp x (y # ys) =
     (if jgt (cmp x y) (Fin 0) then y # insert_by cmp x ys else x # y # ys)"

definition sort_by :: "('a \<Rightarrow> 'a \<Rightarrow> jsnum) \<Rightarrow> 'a list \<Rightarrow> 'a list" where
  "sort_by cmp xs = foldr (insert_by cmp) xs []"

definition stockRatioCompare :: "Consumable \<Rightarrow> Consumable \<Rightarrow> jsnum" where
  "stockRatioCompare a b =
     jfl (jsub (fdiv (stockLevel a) (minimumStock a)) (fdiv (stockLevel b) (minimumStock b)))"

text \<open>
  The two loops of \<open>generateProcurementPlan\<close> carry the list of needs and the
  remaining budget. \<open>remainingBudget -= cost\<close> is a binary64 subtraction.
\<close>

definition planEquipment ::
    "(nat \<Rightarrow> string) \<Rightarrow> string \<Rightarrow> ProcurementNeed list \<times> real \<Rightarrow> Equipment
       \<Rightarrow> ProcurementNeed list \<times> real" where
  "planEquipment uuid now acc eq =
     (let needs = fst acc; remainingBudget = snd acc;
          maintenanceNeeds = predictMaintenanceNeeds eq \<lparr>cyclesPerDay = None, hoursPerDay = None\<rparr>
      in if mp_priority maintenanceNeeds = high \<and> remainingBudget \<ge> acquisitionCost eq then
           (needs @
            [\<lparr>need_id = uuid (length needs),
              itemType = equipment_item,
              itemId = eq_id eq,
              need_quantity = 1,
              estimatedCost = acquisitionCost eq,
              priority = high,
              reason = CriticalReplacement (daysUntilMaintenance maintenanceNeeds),
              requestDate = now,
              need_status = pending\<rparr>],
            fsub remainingBudget (acquisitionCost eq))
         else acc)"

definition planConsumable ::
    "(nat \<Rightarrow> string) \<Rightarrow> string \<Rightarrow> ProcurementNeed list \<times> real \<Rightarrow> Consumable
       \<Rightarrow> ProcurementNeed list \<times> real" where
  "planConsumable uuid now acc c =
     (let needs = fst acc; remainingBudget = snd acc;
          orderQuantity =
            max (fsub (reorderPoint c) (stockLevel c)) (of_int \<lceil>fmul (minimumStock c) 1.5\<rceil>);
          cost = fmul orderQuantity (costPerUnit c)
      in if remainingBudget \<ge> cost then
           (needs @
            [\<lparr>need_id = uuid (length needs),
              itemType = consumable_item,
              itemId = c_id c,
              need_quantity = orderQuantity,
              estimatedCost = cost,
              priority = (if stockLevel c = 0 then high else medium),
              reason = BelowMinimum (stockLevel c) (minimumStock c),
              requestDate = now,
              need_status = pending\<rparr>],
            fsub remainingBudget cost)
         else acc)"

definition generateProcurementPlan ::
    "(nat \<Rightarrow> string) \<Rightarrow> string \<Rightarrow> Equipment list \<Rightarrow> Consumable list \<Rightarrow> real
       \<Rightarrow> ProcurementNeed list" where
  "generateProcurementPlan uuid now equipment consumables_list budget =
     (let acc = foldl (planEquipment uuid now) ([], budget) equipment;
          depleted =
            sort_by stockRatioCompare
              (filter (\<lambda>c. stockLevel c \<le> minimumStock c) consumables_list);
          acc = foldl (planConsumable uuid now) acc depleted
      in fst acc)"

section \<open>Cost calculator (services/costCalculator.ts)\<close>

record ItemizedCost =
  ic_name :: string
  ic_category :: string
  ic_cost :: jsnum

record PersonnelBreakdown =
  pb_count :: real
  costPerPerson :: real

record ConsumableBreakdown =
  cb_id :: string
  cb_units :: real
  cb_costPerUnit :: real
  cb_totalCost :: real

record CostDetails =
  itemizedCosts :: "ItemizedCost list"
  personnelBreakdown :: PersonnelBreakdown
  consumablesBreakdown :: "ConsumableBreakdown list"

record CostBreakdown =
  cb_acquisition :: jsnum
  cb_operational :: jsnum
  cb_maintenance :: jsnum
  cb_personnel :: jsnum
  cb_consumables :: jsnum
  cb_total :: jsnum
  details :: "CostDetails option"

definition PERSONNEL_COST_PER_MONTH :: real where
  "PERSONNEL_COST_PER_MONTH = 5000"

definition CONSUMABLE_BASE_COST :: real where
  "CONSUMABLE_BASE_COST = 100"

record MaintenanceCosts =
  monthly :: jsnum
  yearly :: jsnum

text \<open>
  \<open>calculateMaintenanceCosts\<close> of the degradation tracker; \<open>nextMaintenance\<close>, a
  calendar date, is left out.
\<close>

definition calculateMaintenanceCosts :: "Equipment \<Rightarrow> MaintenanceCosts" where
  "calculateMaintenanceCosts equipment =
     (let baseMaintenanceCost = acquisitionCost equipment * 0.02;
          healthFactor =
            jdiv (currentValue (degradation equipment)) (maxValue (degradation equipment));
          adjustedMonthlyCost = jmul (Fin baseMaintenanceCost) (jsub (Fin 2) healthFactor)
      in \<lparr>monthly = adjustedMonthlyCost, yearly = jmul adjustedMonthlyCost (Fin 12)\<rparr>)"

definition calculateOperationalCost :: "Equipment \<Rightarrow> real" where
  "calculateOperationalCost equipment =
     (let baseCost = acquisitionCost equipment * 0.1;
          st = status (getHealthStatus equipment);
          healthFactor =
            (if st = good then 1 else if st = fair then 1.2 else if st = poor then 1.5 else 2)
      in baseCost * healthFactor)"

definition calculatePersonnelCost :: "Equipment \<Rightarrow> real" where
  "calculatePersonnelCost equipment = personnelRequired equipment * PERSONNEL_COST_PER_MONTH"

definition calculateConsumablesCost :: "Equipment \<Rightarrow> real" where
  "calculateConsumablesCost equipment =
     foldl (\<lambda>tot consumable. tot + unitsPerUse consumable * CONSUMABLE_BASE_COST) 0
       (consumables equipment)"

definition category_name :: "EquipmentCategory \<Rightarrow> string" where
  "category_name c =
     (case c of platform \<Rightarrow> ''platform'' | payload \<Rightarrow> ''payload'' | sensor \<Rightarrow> ''sensor'')"

definition calculateEquipmentCosts :: "Equipment \<Rightarrow> CostBreakdown" where
  "calculateEquipmentCosts equipment =
     (let maintenanceCosts = calculateMaintenanceCosts equipment;
          operationalCost = calculateOperationalCost equipment;
          personnelCost = calculatePersonnelCost equipment;
          consumablesCost = calculateConsumablesCost equipment
      in \<lparr>cb_acquisition = Fin (acquisitionCost equipment),
          cb_operational = Fin operationalCost,
          cb_maintenance = monthly maintenanceCosts,
          cb_personnel = Fin personnelCost,
          cb_consumables = Fin consumablesCost,
          cb_total =
            jadd (jadd (jadd (jadd (Fin (acquisitionCost equipment)) (Fin operationalCost))
                    (monthly maintenanceCosts)) (Fin personnelCost)) (Fin consumablesCost),
          details = Some
            \<lparr>itemizedCosts =
               [\<lparr>ic_name = eq_name equipment,
                 ic_category = category_name (category equipment),
                 ic_cost = Fin (acquisitionCost equipment)\<rparr>],
             personnelBreakdown =
               \<lparr>pb_count = personnelRequired equipment, costPerPerson = PERSONNEL_COST_PER_MONTH\<rparr>,
             consumablesBreakdown =
               map (\<lambda>consumable.
                      \<lparr>cb_id = link_id consumable,
                       cb_units = unitsPerUse consumable,
                       cb_costPerUnit = CONSUMABLE_BASE_COST,
                       cb_totalCost = unitsPerUse consumable * CONSUMABLE_BASE_COST\<rparr>)
                 (consumables equipment)\<rparr>\<rparr>)"

definition zeroCosts :: CostBreakdown where
  "zeroCosts =
     \<lparr>cb_acquisition = Fin 0, cb_operational = Fin 0, cb_maintenance = Fin 0,
      cb_personnel = Fin 0, cb_consumables = Fin 0, cb_total = Fin 0, details = None\<rparr>"

text \<open>
  The factor \<open>projectCosts\<close> derives for one asset in the period \<open>index\<close>: the
  usage handed to \<open>calculateDegradation\<close> has the field \<open>days\<close> only.
\<close>

definition degradationFactor :: "string \<Rightarrow> nat \<Rightarrow> Equipment \<Rightarrow> jsnum" where
  "degradationFactor now index item =
     (let d = calculateDegradation now item
                \<lparr>u_cycles = None, u_hours = None, u_days = Some (30 * real index)\<rparr>
      in jdiv (currentValue d) (maxValue d))"

text \<open>The reducer of the inner \<open>equipment.reduce\<close> of \<open>projectCosts\<close>.\<close>

definition monthlyReducer :: "string \<Rightarrow> nat \<Rightarrow> CostBreakdown \<Rightarrow> Equipment \<Rightarrow> CostBreakdown" where
  "monthlyReducer now index totals item =
     (let costs = calculateEquipmentCosts item;
          factor = degradationFactor now index item
      in \<lparr>cb_acquisition = jadd (cb_acquisition totals) (jquot (cb_acquisition costs) (Fin 12)),
          cb_operational = jadd (cb_operational totals) (jmul (cb_operational costs) factor),
          cb_maintenance =
            jadd (cb_maintenance totals) (jmul (cb_maintenance costs) (jsub (Fin 2) factor)),
          cb_personnel = jadd (cb_personnel totals) (cb_personnel costs),
          cb_consumables = jadd (cb_consumables totals) (cb_consumables costs),
          cb_total = Fin 0,
          details = None\<rparr>)"

definition monthlyCosts :: "string \<Rightarrow> Equipment list \<Rightarrow> nat \<Rightarrow> CostBreakdown" where
  "monthlyCosts now equipment index =
     (let m = foldl (monthlyReducer now index) zeroCosts equipment
      in m\<lparr>cb_total :=
             jsub (foldl jadd (Fin 0)
                     [cb_acquisition m, cb_operational m, cb_maintenance m, cb_personnel m,
                      cb_consumables m, cb_total m])
               (cb_total m)\<rparr>)"

definition aggregateCosts :: "CostBreakdown list \<Rightarrow> CostBreakdown" where
  "aggregateCosts costs =
     foldl (\<lambda>totals current.
              \<lparr>cb_acquisition = jadd (cb_acquisition totals) (cb_acquisition current),
               cb_operational = jadd (cb_operational totals) (cb_operational current),
               cb_maintenance = jadd (cb_maintenance totals) (cb_maintenance current),
               cb_personnel = jadd (cb_personnel totals) (cb_personnel current),
               cb_consumables = jadd (cb_consumables totals) (cb_consumables current),
               cb_total = jadd (cb_total totals) (cb_total current),
               details = None\<rparr>)
       zeroCosts costs"

record ProjectedCosts =
  pc_monthly :: "CostBreakdown list"
  pc_quarterly :: "CostBreakdown list"
  pc_yearly :: CostBreakdown
  projections :: "(string \<times> CostBreakdown) list"

text \<open>
  \<open>projectCosts\<close>. \<open>months\<close> is the length of the array the source builds;
  \<open>monthDate index\<close> is the date string the source derives from the clock for the
  period \<open>index\<close>.
\<close>

definition projectCosts ::
    "string \<Rightarrow> (nat \<Rightarrow> string) \<Rightarrow> Equipment list \<Rightarrow> nat \<Rightarrow> ProjectedCosts" where
  "projectCosts now monthDate equipment months =
     (let monthlyProjections =
            map (\<lambda>index. (monthDate index, monthlyCosts now equipment index)) [0..<months];
          quarterlyProjections =
            map (\<lambda>index.
                   aggregateCosts
                     (map snd (take 3 (drop (index * 3) monthlyProjections))))
              [0..<(months + 2) div 3]
      in \<lparr>pc_monthly = map snd monthlyProjections,
          pc_quarterly = quarterlyProjections,
          pc_yearly = aggregateCosts (map snd monthlyProjections),
          projections = monthlyProjections\<rparr>)"

section \<open>Equipment manager (services/equipmentManager.ts)\<close>

record CombinationItem =
  item_id :: string
  item_quantity :: real

record CombinationConsumable =
  cc_id :: string
  cc_quantity :: real

record EquipmentCombination =
  comb_id :: string
  comb_name :: string
  comb_description :: string
  comb_equipment :: "CombinationItem list"
  totalCost :: real
  comb_personnelRequired :: real
  consumablesRequired :: "CombinationConsumable list"
  created :: string
  comb_lastUsed :: "string option"
  usageCount :: real

record ValidationOutcome =
  valid :: bool
  v_message :: "string option"

text \<open>
  \<open>getEquipment\<close> reads the manager's map of registered equipment and throws an
  \<open>Error\<close> for an unknown id; \<open>Inl\<close> carries the thrown error's message.
\<close>

definition getEquipment :: "(string \<rightharpoonup> Equipment) \<Rightarrow> string \<Rightarrow> string + Equipment" where
  "getEquipment registry ident =
     (case registry ident of
        None \<Rightarrow> Inl (''Equipment with ID '' @ ident @ '' not found'')
      | Some equipment \<Rightarrow> Inr equipment)"

text \<open>
  \<open>validateCombination\<close> calls \<open>this.degradationTracker.getDegradation(eq.id)\<close>.
  The tracker is the \<open>DegradationTrackerService\<close> of services/degradationTracker.ts,
  whose class defines no member of that name: the property read gives \<open>undefined\<close>, and
  calling it throws a \<open>TypeError\<close>. The message of that error is chosen by the engine;
  it is the parameter \<open>notAFunction\<close>. \<open>Inl\<close> carries the thrown error's message.
\<close>

definition getDegradation :: "string \<Rightarrow> string \<Rightarrow> string + DegradationParams" where
  "getDegradation notAFunction ident = Inl notAFunction"

text \<open>
  The loop of \<open>validateCombination\<close>. A thrown error ends it in the \<open>catch\<close> block,
  which returns the error's message.
\<close>

fun validateItems ::
    "(string \<rightharpoonup> Equipment) \<Rightarrow> string \<Rightarrow> CombinationItem list \<Rightarrow> ValidationOutcome" where
  "validateItems registry notAFunction [] = \<lparr>valid = True, v_message = None\<rparr>"
| "validateItems registry notAFunction (eq # rest) =
     (case getEquipment registry (item_id eq) of
        Inl err \<Rightarrow> \<lparr>valid = False, v_message = Some err\<rparr>
      | Inr equipment \<Rightarrow>
          (let avail = quantity equipment - inUse equipment
           in if avail < item_quantity eq then
                \<lparr>valid = False,
                 v_message = Some (''Insufficient quantity of '' @ eq_name equipment @ '' available'')\<rparr>
              else
                (case getDegradation notAFunction (item_id eq) of
                   Inl err \<Rightarrow> \<lparr>valid = False, v_message = Some err\<rparr>
                 | Inr d \<Rightarrow>
                     if currentValue d < 25 then
                       \<lparr>valid = False,
                        v_message = Some (eq_name equipment @ '' requires maintenance before use'')\<rparr>
                     else validateItems registry notAFunction rest)))"

definition validateCombination ::
    "(string \<rightharpoonup> Equipment) \<Rightarrow> string \<Rightarrow> EquipmentCombination \<Rightarrow> ValidationOutcome" where
  "validateCombination registry notAFunction combination =
     validateItems registry notAFunction (comb_equipment combination)"

section \<open>Objects and references\<close>

text \<open>
  For the question which objects a call writes to, records are not enough: the model
  below keeps JavaScript's objects in a store. An object is a map from property names to
  values, an array is a list of values, a value of object type is a reference into the
  store. Allocation takes the next unused address. Reading a property of something that
  is not an object, or using a value at a type other than the one the interfaces in
  \<open>types/\<close> declare, ends the call with \<open>TypeError\<close>. The small objects a
  function builds and hands straight back (a health report, an inventory status, the
  result of a transaction) are values of the model, not cells of the store.
\<close>

type_synonym addr = nat

datatype val = VNum real | VStr string | VBool bool | VRef addr | VUndefined

datatype obj = Obj "string \<rightharpoonup> val" | Arr "val list"

record heap =
  cells :: "addr \<rightharpoonup> obj"
  nxt :: addr

datatype error = TypeError

type_synonym 'a hm = "heap \<Rightarrow> (error + 'a) \<times> heap"

definition ret :: "'a \<Rightarrow> 'a hm" where
  "ret x h = (Inr x, h)"

definition throw :: "'a hm" where
  "throw h = (Inl TypeError, h)"

definition bind :: "'a hm \<Rightarrow> ('a \<Rightarrow> 'b hm) \<Rightarrow> 'b hm" where
  "bind m f h = (case m h of (Inl e, h') \<Rightarrow> (Inl e, h') | (Inr x, h') \<Rightarrow> f x h')"

definition alloc :: "obj \<Rightarrow> addr hm" where
  "alloc ob h = (Inr (nxt h), h\<lparr>cells := (cells h)(nxt h \<mapsto> ob), nxt := Suc (nxt h)\<rparr>)"

definition get_props :: "val \<Rightarrow> (string \<rightharpoonup> val) hm" where
  "get_props v h =
     (case v of
        VRef a \<Rightarrow> (case cells h a of Some (Obj p) \<Rightarrow> (Inr p, h) | _ \<Rightarrow> (Inl TypeError, h))
      | _ \<Rightarrow> (Inl TypeError, h))"

definition get_elems :: "val \<Rightarrow> (val list) hm" where
  "get_elems v h =
     (case v of
        VRef a \<Rightarrow> (case cells h a of Some (Arr vs) \<Rightarrow> (Inr vs, h) | _ \<Rightarrow> (Inl TypeError, h))
      | _ \<Rightarrow> (Inl TypeError, h))"

definition get_prop :: "val \<Rightarrow> string \<Rightarrow> val hm" where
  "get_prop v f = bind (get_props v) (\<lambda>p. ret (case p f of None \<Rightarrow> VUndefined | Some x \<Rightarrow> x))"

definition get_num :: "val \<Rightarrow> string \<Rightarrow> real hm" where
  "get_num v f = bind (get_prop v f) (\<lambda>x. case x of VNum r \<Rightarrow> ret r | _ \<Rightarrow> throw)"

definition set_prop :: "addr \<Rightarrow> string \<Rightarrow> val \<Rightarrow> unit hm" where
  "set_prop a f v h =
     (case cells h a of
        Some (Obj p) \<Rightarrow> (Inr (), h\<lparr>cells := (cells h)(a \<mapsto> Obj (p(f \<mapsto> v)))\<rparr>)
      | _ \<Rightarrow> (Inl TypeError, h))"

text \<open>The object spread \<open>{ ...v }\<close>: a new object with the properties of \<open>v\<close>.\<close>

definition spread :: "val \<Rightarrow> addr hm" where
  "spread v = bind (get_props v) (\<lambda>p. alloc (Obj p))"

text \<open>\<open>array.find(x => x.id === ident)\<close>: the first element with that id, if any.\<close>

fun find_id :: "string \<Rightarrow> val list \<Rightarrow> (val option) hm" where
  "find_id ident [] = ret None"
| "find_id ident (v # vs) =
     bind (get_prop v ''id'') (\<lambda>i. if i = VStr ident then ret (Some v) else find_id ident vs)"

definition getHealthStatus_h :: "val \<Rightarrow> HealthReport hm" where
  "getHealthStatus_h equipment =
     bind (get_prop equipment ''degradation'') (\<lambda>d.
     bind (get_num d ''currentValue'') (\<lambda>cur.
     bind (get_num d ''maxValue'') (\<lambda>mx.
       let healthPercentage = jfl (jmul (fdiv cur mx) (Fin 100))
       in ret
            (if jgt healthPercentage (Fin 75) then
               \<lparr>status = good, health_message = ''Equipment is in good condition'',
                needsMaintenance = False\<rparr>
             else if jgt healthPercentage (Fin 50) then
               \<lparr>status = fair, health_message = ''Equipment is functioning adequately'',
                needsMaintenance = False\<rparr>
             else if jgt healthPercentage (Fin 25) then
               \<lparr>status = poor, health_message = ''Equipment requires attention'',
                needsMaintenance = True\<rparr>
             else
               \<lparr>status = critical, health_message = ''Immediate maintenance required'',
                needsMaintenance = True\<rparr>))))"

definition getInventoryStatus_h :: "val \<Rightarrow> InventoryStatus hm" where
  "getInventoryStatus_h equipment =
     bind (getHealthStatus_h equipment) (\<lambda>degradation_report.
     let inMaintenance = (if needsMaintenance degradation_report then 1 else 0) in
     bind (get_num equipment ''quantity'') (\<lambda>q.
     bind (get_num equipment ''inUse'') (\<lambda>u.
     bind (get_prop equipment ''degradation'') (\<lambda>d.
     bind (get_num d ''currentValue'') (\<lambda>cur.
     bind (get_num d ''maxValue'') (\<lambda>mx.
       ret \<lparr>available = q - u - inMaintenance, deployed = u, maintenance = inMaintenance,
            degradationStatus = jfl (jmul (fdiv cur mx) (Fin 100))\<rparr>))))))"

text \<open>
  \<open>calculateDegradation\<close> on the store: \<open>newDegradation\<close> is a new object, and the
  two assignments write to it.
\<close>

definition degrade :: "val \<Rightarrow> addr \<Rightarrow> real option \<Rightarrow> unit hm" where
  "degrade d newDegradation amount =
     (case amount of
        None \<Rightarrow> ret ()
      | Some n \<Rightarrow>
          if n = 0 then ret ()
          else
            bind (get_num d ''currentValue'') (\<lambda>cur.
            bind (get_num d ''degradationRate'') (\<lambda>rate.
              set_prop newDegradation ''currentValue'' (VNum (max 0 (cur - n * rate))))))"

definition calculateDegradation_h :: "string \<Rightarrow> val \<Rightarrow> Usage \<Rightarrow> val hm" where
  "calculateDegradation_h now equipment usage =
     bind (get_prop equipment ''degradation'') (\<lambda>d.
     bind (spread d) (\<lambda>newDegradation.
     bind (get_prop d ''type'') (\<lambda>t.
     bind (if t = VStr ''cycles'' then degrade d newDegradation (u_cycles usage)
           else if t = VStr ''hours'' then degrade d newDegradation (u_hours usage)
           else if t = VStr ''time'' then degrade d newDegradation (u_days usage)
           else ret ()) (\<lambda>_.
     bind (set_prop newDegradation ''lastUpdated'' (VStr now)) (\<lambda>_.
       ret (VRef newDegradation))))))"

text \<open>
  The object a transaction returns, with its property \<open>updatedEquipment\<close> or
  \<open>updatedConsumable\<close> as a reference into the store.
\<close>

record TransactionResult =
  r_success :: bool
  r_message :: string
  r_updated :: "addr option"

definition failure_h :: "string \<Rightarrow> TransactionResult hm" where
  "failure_h msg = ret \<lparr>r_success = False, r_message = msg, r_updated = None\<rparr>"

definition success_h :: "addr \<Rightarrow> TransactionResult hm" where
  "success_h updated =
     ret \<lparr>r_success = True, r_message = ''Transaction processed successfully'',
          r_updated = Some updated\<rparr>"

definition processEquipmentTransaction_h ::
    "string \<Rightarrow> InventoryTransaction \<Rightarrow> val \<Rightarrow> TransactionResult hm" where
  "processEquipmentTransaction_h now transaction equipment =
     bind (get_elems equipment) (\<lambda>elems.
     bind (find_id (equipmentId transaction) elems) (\<lambda>found.
       case found of
         None \<Rightarrow> failure_h ''Equipment not found''
       | Some equipmentItem \<Rightarrow>
           bind (getInventoryStatus_h equipmentItem) (\<lambda>st.
           bind (spread equipmentItem) (\<lambda>updatedEquipment.
             case tx_type transaction of
               acquisition \<Rightarrow>
                 bind (get_num (VRef updatedEquipment) ''quantity'') (\<lambda>q.
                 bind (set_prop updatedEquipment ''quantity'' (VNum (q + tx_quantity transaction))) (\<lambda>_.
                   success_h updatedEquipment))
             | deployment \<Rightarrow>
                 if available st < tx_quantity transaction then
                   failure_h ''Insufficient available equipment''
                 else
                   bind (get_num (VRef updatedEquipment) ''inUse'') (\<lambda>u.
                   bind (set_prop updatedEquipment ''inUse'' (VNum (u + tx_quantity transaction))) (\<lambda>_.
                     success_h updatedEquipment))
             | return \<Rightarrow>
                 bind (get_num (VRef updatedEquipment) ''inUse'') (\<lambda>u.
                   if u < tx_quantity transaction then failure_h ''Invalid return quantity''
                   else
                     bind (set_prop updatedEquipment ''inUse'' (VNum (u - tx_quantity transaction))) (\<lambda>_.
                     bind (calculateDegradation_h now (VRef updatedEquipment)
                             \<lparr>u_cycles = Some 1, u_hours = None, u_days = None\<rparr>) (\<lambda>d.
                     bind (set_prop updatedEquipment ''degradation'' d) (\<lambda>_.
                       success_h updatedEquipment))))
             | disposal \<Rightarrow>
                 bind (get_num (VRef updatedEquipment) ''quantity'') (\<lambda>q.
                   if q < tx_quantity transaction then failure_h ''Invalid disposal quantity''
                   else
                     bind (set_prop updatedEquipment ''quantity'' (VNum (q - tx_quantity transaction))) (\<lambda>_.
                       success_h updatedEquipment))))))"

text \<open>
  \<open>processConsumableTransaction\<close> on the store. \<open>triggerReorder\<close> reads the updated
  consumable and writes to the console only, which is no part of the store.
\<close>

definition triggerReorder_h :: "val \<Rightarrow> unit hm" where
  "triggerReorder_h consumable =
     bind (get_prop consumable ''name'') (\<lambda>_.
     bind (get_num consumable ''stockLevel'') (\<lambda>_.
     bind (get_num consumable ''reorderPoint'') (\<lambda>_. ret ())))"

definition finishConsumable_h :: "addr \<Rightarrow> TransactionResult hm" where
  "finishConsumable_h updated =
     bind (get_num (VRef updated) ''stockLevel'') (\<lambda>s.
     bind (get_num (VRef updated) ''reorderPoint'') (\<lambda>r.
     bind (if s \<le> r then triggerReorder_h (VRef updated) else ret ()) (\<lambda>_.
       success_h updated)))"

definition processConsumableTransaction_h ::
    "ConsumableTransaction \<Rightarrow> val \<Rightarrow> TransactionResult hm" where
  "processConsumableTransaction_h transaction consumables_array =
     bind (get_elems consumables_array) (\<lambda>elems.
     bind (find_id (consumableId transaction) elems) (\<lambda>found.
       case found of
         None \<Rightarrow> failure_h ''Consumable not found''
       | Some consumable \<Rightarrow>
           bind (spread consumable) (\<lambda>updatedConsumable.
           bind (get_num (VRef updatedConsumable) ''stockLevel'') (\<lambda>s.
             case ctx_type transaction of
               purchase \<Rightarrow>
                 bind (set_prop updatedConsumable ''stockLevel'' (VNum (s + ctx_quantity transaction))) (\<lambda>_.
                   finishConsumable_h updatedConsumable)
             | use \<Rightarrow>
                 if s < ctx_quantity transaction then failure_h ''Insufficient stock''
                 else
                   bind (set_prop updatedConsumable ''stockLevel'' (VNum (s - ctx_quantity transaction))) (\<lambda>_.
                     finishConsumable_h updatedConsumable)
             | c_disposal \<Rightarrow>
                 if s < ctx_quantity transaction then failure_h ''Invalid disposal quantity''
                 else
                   bind (set_prop updatedConsumable ''stockLevel'' (VNum (s - ctx_quantity transaction))) (\<lambda>_.
                     finishConsumable_h updatedConsumable)))))"

text \<open>A store is well formed when every address in use lies below the next one.\<close>

definition heap_wf :: "heap \<Rightarrow> bool" where
  "heap_wf h \<longleftrightarrow> (\<forall>a \<in> dom (cells h). a < nxt h)"

text \<open>
  \<open>writes_above n m P\<close>: started in a store whose next address is at least \<open>n\<close>, the
  computation \<open>m\<close> leaves every cell below \<open>n\<close> as it was, never lowers the next
  address, and a value it returns satisfies \<open>P\<close>.
\<close>

definition writes_above :: "addr \<Rightarrow> 'a hm \<Rightarrow> ('a \<Rightarrow> bool) \<Rightarrow> bool" where
  "writes_above n m P \<longleftrightarrow>
     (\<forall>h. n \<le> nxt h \<longrightarrow>
        n \<le> nxt (snd (m h))
        \<and> (\<forall>a < n. cells (snd (m h)) a = cells h a)
        \<and> (\<forall>x. fst (m h) = Inr x \<longrightarrow> P x))"

text \<open>
  How the store represents the records of the data model: an asset at an address is an
  object whose numeric properties and id are the record's, with its degradation object
  behind the reference \<open>degradation\<close>. Properties the two transaction functions never
  read are not constrained.
\<close>

definition type_name :: "DegradationType \<Rightarrow> string" where
  "type_name t = (case t of cycles \<Rightarrow> ''cycles'' | hours \<Rightarrow> ''hours'' | time \<Rightarrow> ''time'')"

definition rep_degradation :: "heap \<Rightarrow> addr \<Rightarrow> DegradationParams \<Rightarrow> bool" where
  "rep_degradation h a d \<longleftrightarrow>
     (\<exists>p. cells h a = Some (Obj p)
          \<and> p ''type'' = Some (VStr (type_name (deg_type d)))
          \<and> p ''maxValue'' = Some (VNum (maxValue d))
          \<and> p ''currentValue'' = Some (VNum (currentValue d))
          \<and> p ''replacementCost'' = Some (VNum (replacementCost d))
          \<and> p ''degradationRate'' = Some (VNum (degradationRate d))
          \<and> p ''lastUpdated'' = Some (VStr (lastUpdated d)))"

definition rep_equipment :: "heap \<Rightarrow> addr \<Rightarrow> Equipment \<Rightarrow> bool" where
  "rep_equipment h a e \<longleftrightarrow>
     (\<exists>p d. cells h a = Some (Obj p)
          \<and> p ''id'' = Some (VStr (eq_id e))
          \<and> p ''acquisitionCost'' = Some (VNum (acquisitionCost e))
          \<and> p ''quantity'' = Some (VNum (quantity e))
          \<and> p ''inUse'' = Some (VNum (inUse e))
          \<and> p ''personnelRequired'' = Some (VNum (personnelRequired e))
          \<and> p ''degradation'' = Some (VRef d)
          \<and> rep_degradation h d (degradation e))"

definition rep_consumable :: "heap \<Rightarrow> addr \<Rightarrow> Consumable \<Rightarrow> bool" where
  "rep_consumable h a c \<longleftrightarrow>
     (\<exists>p. cells h a = Some (Obj p)
          \<and> p ''id'' = Some (VStr (c_id c))
          \<and> p ''name'' = Some (VStr (c_name c))
          \<and> p ''unit'' = Some (VStr (c_unit c))
          \<and> p ''costPerUnit'' = Some (VNum (costPerUnit c))
          \<and> p ''stockLevel'' = Some (VNum (stockLevel c))
          \<and> p ''minimumStock'' = Some (VNum (minimumStock c))
          \<and> p ''reorderPoint'' = Some (VNum (reorderPoint c)))"

section \<open>Predicates used to state the properties of the procurement plan\<close>

text \<open>
  The budget that remains after the needs of a list were accepted in order, as the loops
  of \<open>generateProcurementPlan\<close> compute it: one binary64 subtraction for each need.
\<close>

definition remainingAfter :: "real \<Rightarrow> ProcurementNeed list \<Rightarrow> real" where
  "remainingAfter budget needs = foldl (\<lambda>r n. fsub r (estimatedCost n)) budget needs"

text \<open>
  The state of the two loops is within budget when the remaining budget is the one
  computed from the needs accepted so far, is not negative, and every accepted need cost
  no more than what remained when it was accepted.
\<close>

definition within_budget :: "real \<Rightarrow> ProcurementNeed list \<times> real \<Rightarrow> bool" where
  "within_budget budget acc \<longleftrightarrow>
     snd acc = remainingAfter budget (fst acc)
     \<and> 0 \<le> snd acc
     \<and> (\<forall>k < length (fst acc).
           estimatedCost (fst acc ! k) \<le> remainingAfter budget (take k (fst acc)))"

text \<open>
  A need of the plan is funded in full when its cost is the whole acquisition cost of an
  asset of the input, or the whole cost of the order quantity of a consumable of the
  input that is at or below its minimum stock.
\<close>

definition fully_funded :: "Equipment set \<Rightarrow> Consumable set \<Rightarrow> ProcurementNeed \<Rightarrow> bool" where
  "fully_funded E C n \<longleftrightarrow>
     (itemType n = equipment_item
        \<and> (\<exists>e \<in> E. itemId n = eq_id e \<and> need_quantity n = 1 \<and> estimatedCost n = acquisitionCost e))
     \<or> (itemType n = consumable_item
        \<and> (\<exists>c \<in> C. itemId n = c_id c \<and> stockLevel c \<le> minimumStock c
              \<and> need_quantity n =
                    max (fsub (reorderPoint c) (stockLevel c)) (of_int \<lceil>fmul (minimumStock c) 1.5\<rceil>)
              \<and> estimatedCost n = fmul (need_quantity n) (costPerUnit c)))"

section \<open>Scenario data\<close>

text \<open>
  The asset of the specification's scenarios: five units, none in use, full health on a
  scale of 100 cycles.
\<close>

definition scenario_degradation :: DegradationParams where
  "scenario_degradation =
     \<lparr>deg_type = cycles, maxValue = 100, currentValue = 100, replacementCost = 0,
      degradationRate = 1, lastUpdated = ''2024-01-01T00:00:00.000Z''\<rparr>"

definition scenario_asset :: Equipment where
  "scenario_asset =
     \<lparr>eq_id = ''a1'', category = platform, eq_name = ''Platform A'', description = [],
      manufacturer = [], modelNumber = [], acquisitionCost = 1000, quantity = 5, inUse = 0,
      consumables = [], degradation = scenario_degradation, personnelRequired = 2,
      dateAdded = ''2024-01-01T00:00:00.000Z'', lastUsed = None, specifications = [],
      documents = []\<rparr>"

definition with_health :: "real \<Rightarrow> real \<Rightarrow> Equipment" where
  "with_health cur mx =
     scenario_asset\<lparr>degradation := scenario_degradation\<lparr>currentValue := cur, maxValue := mx\<rparr>\<rparr>"

definition scenario_tx :: "InventoryTransactionType \<Rightarrow> real \<Rightarrow> InventoryTransaction" where
  "scenario_tx kind q =
     \<lparr>tx_id = ''t1'', equipmentId = ''a1'', tx_type = kind, tx_quantity = q,
      tx_date = ''2024-01-02T00:00:00.000Z'', tx_notes = [], tx_cost = None, personnelId = None\<rparr>"

definition scenario_now :: string where
  "scenario_now = ''2024-01-03T00:00:00.000Z''"

definition scenario_consumable :: Consumable where
  "scenario_consumable =
     \<lparr>c_id = ''c1'', c_name = ''Fuel'', c_unit = ''l'', costPerUnit = 2, stockLevel = 5,
      minimumStock = 10, reorderPoint = 20\<rparr>"

definition scenario_combination :: "CombinationItem list \<Rightarrow> EquipmentCombination" where
  "scenario_combination items =
     \<lparr>comb_id = ''k1'', comb_name = ''Kit'', comb_description = [], comb_equipment = items,
      totalCost = 0, comb_personnelRequired = 0, consumablesRequired = [],
      created = ''2024-01-01T00:00:00.000Z'', comb_lastUsed = None, usageCount = 0\<rparr>"

text \<open>The scenario asset with degradation by elapsed time.\<close>

definition time_asset :: Equipment where
  "time_asset = scenario_asset\<lparr>degradation := scenario_degradation\<lparr>deg_type := time\<rparr>\<rparr>"

text \<open>
  A store with an array holding one asset (2 of 5 units in use), the asset's degradation
  object, and an array holding one consumable.
\<close>

definition scenario_heap :: heap where
  "scenario_heap =
     \<lparr>cells =
        [0 \<mapsto> Arr [VRef 1],
         1 \<mapsto> Obj [''id'' \<mapsto> VStr ''a1'', ''name'' \<mapsto> VStr ''Platform A'',
                   ''acquisitionCost'' \<mapsto> VNum 1000, ''quantity'' \<mapsto> VNum 5,
                   ''inUse'' \<mapsto> VNum 2, ''degradation'' \<mapsto> VRef 2],
         2 \<mapsto> Obj [''type'' \<mapsto> VStr ''cycles'', ''maxValue'' \<mapsto> VNum 100,
                   ''currentValue'' \<mapsto> VNum 100, ''replacementCost'' \<mapsto> VNum 0,
                   ''degradationRate'' \<mapsto> VNum 1,
                   ''lastUpdated'' \<mapsto> VStr ''2024-01-01T00:00:00.000Z''],
         3 \<mapsto> Arr [VRef 4],
         4 \<mapsto> Obj [''id'' \<mapsto> VStr ''c1'', ''name'' \<mapsto> VStr ''Fuel'',
                   ''costPerUnit'' \<mapsto> VNum 2, ''stockLevel'' \<mapsto> VNum 5,
                   ''minimumStock'' \<mapsto> VNum 10, ''reorderPoint'' \<mapsto> VNum 20]],
      nxt = 5\<rparr>"

definition scenario_ctx :: "ConsumableTransactionType \<Rightarrow> real \<Rightarrow> ConsumableTransaction" where
  "scenario_ctx kind q =
     \<lparr>ctx_id = ''t2'', consumableId = ''c1'', ctx_type = kind, ctx_quantity = q,
      ctx_date = ''2024-01-02T00:00:00.000Z'', ctx_cost = None, associatedEquipmentId = None\<rparr>"

text \<open>
  A host in UTC whose clock reads 2024-01-03T00:00:00.000Z.
\<close>

definition scenario_host :: Host where
  "scenario_host = \<lparr>localTime = 1704240000000, localTZA = (\<lambda>t. 0)\<rparr>"

text \<open>
  An asset with a long life: a thousand million cycles, none used, one cycle of wear for
  each cycle of use.
\<close>

definition long_lived_asset :: Equipment where
  "long_lived_asset =
     scenario_asset\<lparr>degradation :=
       scenario_degradation\<lparr>maxValue := 1000000000, currentValue := 1000000000\<rparr>\<rparr>"

text \<open>The scenario asset with another degradation rate.\<close>

definition with_rate :: "real \<Rightarrow> Equipment \<Rightarrow> Equipment" where
  "with_rate r e = e\<lparr>degradation := (degradation e)\<lparr>degradationRate := r\<rparr>\<rparr>"

text \<open>
  An asset due for maintenance (30 of 100 cycles left) with a given identifier and
  acquisition cost.
\<close>

definition worn_asset :: "string \<Rightarrow> real \<Rightarrow> Equipment" where
  "worn_asset ident cost = (with_health 30 100)\<lparr>eq_id := ident, acquisitionCost := cost\<rparr>"

section \<open>Properties of rounding\<close>

lemma rne_of_int [simp]: "rne (of_int k) = k"
  by (simp add: rne_def)

lemma rne_nonneg: "0 \<le> x \<Longrightarrow> 0 \<le> rne x"
  by (auto simp: rne_def Let_def)

lemma expo_bracket:
  assumes "x \<noteq> 0"
  shows "2 powi expo x \<le> \<bar>x\<bar> \<and> \<bar>x\<bar> < 2 powi (expo x + 1)"
proof (cases "1 \<le> \<bar>x\<bar>")
  case True
  define n where "n = nat \<lfloor>\<bar>x\<bar>\<rfloor>"
  from True have n: "0 < n" "real n \<le> \<bar>x\<bar>" "\<bar>x\<bar> < real n + 1"
    unfolding n_def by linarith+
  define k where "k = floorlog 2 n"
  from floorlog_bounds [where b = 2 and x = n] n(1) have b: "2 ^ (k - 1) \<le> n" "n < 2 ^ k"
    by (simp_all add: k_def)
  from n(1) have k: "0 < k" by (simp add: k_def floorlog_def)
  from True have e: "expo x = int k - 1" by (simp add: expo_def n_def k_def)
  from k e have "expo x = int (k - 1)" and "expo x + 1 = int k" by linarith+
  then have e': "(2::real) powi expo x = 2 ^ (k - 1)" "(2::real) powi (expo x + 1) = 2 ^ k"
    by (simp_all only: power_int_of_nat)
  from b(1) have "real (2 ^ (k - 1)) \<le> real n" by (rule of_nat_mono)
  then have "(2::real) ^ (k - 1) \<le> real n" by simp
  with n(2) have 1: "(2::real) ^ (k - 1) \<le> \<bar>x\<bar>" by linarith
  from b(2) have "n + 1 \<le> 2 ^ k" by simp
  then have "real (n + 1) \<le> real (2 ^ k)" by (rule of_nat_mono)
  then have "real n + 1 \<le> 2 ^ k" by simp
  with n(3) have 2: "\<bar>x\<bar> < 2 ^ k" by linarith
  from 1 2 show ?thesis by (simp only: e')
next
  case False
  with assms have x: "0 < \<bar>x\<bar>" "\<bar>x\<bar> < 1" by auto
  define y where "y = 1 / \<bar>x\<bar>"
  from x have y: "1 < y" "\<bar>x\<bar> = 1 / y" by (simp_all add: y_def)
  define m where "m = nat \<lceil>y\<rceil> - 1"
  from y(1) have m: "0 < m" "real m < y" "y \<le> real m + 1"
    unfolding m_def by linarith+
  define k where "k = floorlog 2 m"
  from floorlog_bounds [where b = 2 and x = m] m(1) have b: "2 ^ (k - 1) \<le> m" "m < 2 ^ k"
    by (simp_all add: k_def)
  from m(1) have k: "0 < k" by (simp add: k_def floorlog_def)
  from False have e: "expo x = - int k" by (simp add: expo_def m_def k_def y_def)
  from b(1) have "real (2 ^ (k - 1)) \<le> real m" by (rule of_nat_mono)
  then have "(2::real) ^ (k - 1) \<le> real m" by simp
  with m(2) have 1: "(2::real) ^ (k - 1) < y" by linarith
  from b(2) have "m + 1 \<le> 2 ^ k" by simp
  then have "real (m + 1) \<le> real (2 ^ k)" by (rule of_nat_mono)
  then have "real m + 1 \<le> 2 ^ k" by simp
  with m(3) have 2: "y \<le> 2 ^ k" by linarith
  have p1: "(2::real) powi (- int k) = 1 / 2 ^ k"
    by (simp only: power_int_minus_divide power_int_of_nat)
  have p2: "(2::real) powi (- int k + 1) = 1 / 2 ^ (k - 1)"
  proof -
    have "(2::real) powi (- int (k - 1)) = 1 / 2 ^ (k - 1)"
      by (simp only: power_int_minus_divide power_int_of_nat)
    moreover from k have "- int k + 1 = - int (k - 1)" by linarith
    ultimately show ?thesis by (simp only:)
  qed
  from 2 y(1) have "1 / 2 ^ k \<le> 1 / y"
    by (simp add: frac_le)
  moreover from 1 have "1 / y < 1 / 2 ^ (k - 1)"
    by (simp add: frac_less2)
  ultimately show ?thesis
    by (simp only: e p1 p2 y(2))
qed

lemma expo_unique:
  assumes "2 powi e \<le> \<bar>x\<bar>" "\<bar>x\<bar> < 2 powi (e + 1)"
  shows "expo x = e"
proof -
  have "(0::real) < 2 powi e" by simp
  with assms(1) have "0 < \<bar>x\<bar>" by linarith
  then have nz: "x \<noteq> 0" by simp
  from expo_bracket [OF nz] have b: "2 powi expo x \<le> \<bar>x\<bar>" "\<bar>x\<bar> < 2 powi (expo x + 1)"
    by simp_all
  have "\<not> expo x < e"
  proof
    assume "expo x < e"
    then have "expo x + 1 \<le> e" by simp
    then have "(2::real) powi (expo x + 1) \<le> 2 powi e"
      by (intro power_int_increasing) simp_all
    with b(2) assms(1) show False by linarith
  qed
  moreover have "\<not> e < expo x"
  proof
    assume "e < expo x"
    then have "e + 1 \<le> expo x" by simp
    then have "(2::real) powi (e + 1) \<le> 2 powi expo x"
      by (intro power_int_increasing) simp_all
    with b(1) assms(2) show False by linarith
  qed
  ultimately show ?thesis by linarith
qed

lemma fl_eval:
  assumes "2 powi e \<le> \<bar>x\<bar>" "\<bar>x\<bar> < 2 powi (e + 1)"
  shows "fl x = of_int (rne (x / 2 powi (e - 52))) * 2 powi (e - 52)"
proof -
  have "(0::real) < 2 powi e" by simp
  with assms(1) have "0 < \<bar>x\<bar>" by linarith
  then have nz: "x \<noteq> 0" by simp
  from expo_unique [OF assms(1,2)] have "expo x = e" .
  with nz show ?thesis by (simp add: fl_def Let_def)
qed

lemma fl_dyadic:
  assumes m: "\<bar>m\<bar> < 2 ^ 53"
  shows "fl (of_int m * 2 powi j) = of_int m * 2 powi j"
proof (cases "m = 0")
  case True
  then show ?thesis by (simp add: fl_def)
next
  case False
  define x :: real where "x = of_int m * 2 powi j"
  from False have nz: "x \<noteq> 0" by (simp add: x_def)
  define e where "e = expo x"
  from expo_bracket [OF nz] have b: "2 powi expo x \<le> \<bar>x\<bar>" by simp
  have ax: "\<bar>x\<bar> = of_int \<bar>m\<bar> * 2 powi j"
    by (simp add: x_def abs_mult)
  from m have "real_of_int \<bar>m\<bar> < 2 ^ 53"
    by (metis of_int_less_iff of_int_numeral of_int_power)
  then have "\<bar>x\<bar> < 2 ^ 53 * 2 powi j"
    unfolding ax by (intro mult_strict_right_mono) simp_all
  also have "\<dots> = 2 powi (53 + j)"
    by (simp add: power_int_add)
  finally have "(2::real) powi expo x < 2 powi (53 + j)" using b by linarith
  then have "expo x < 53 + j"
    by (metis not_le power_int_increasing one_le_numeral)
  then have k: "0 \<le> j - e + 52" by (simp add: e_def)
  define k where "k = nat (j - e + 52)"
  have "x / 2 powi (e - 52) = of_int m * (2 powi j / 2 powi (e - 52))"
    by (simp add: x_def)
  also have "2 powi j / 2 powi (e - 52) = (2::real) powi (j - (e - 52))"
    by (simp add: power_int_diff)
  also have "j - (e - 52) = int k" using k by (simp add: k_def)
  finally have q: "x / 2 powi (e - 52) = of_int (m * 2 ^ k)"
    by simp
  have "fl x = of_int (rne (x / 2 powi (e - 52))) * 2 powi (e - 52)"
    using nz by (simp add: fl_def Let_def e_def)
  also have "\<dots> = (x / 2 powi (e - 52)) * 2 powi (e - 52)"
    by (simp only: q rne_of_int)
  also have "\<dots> = x" by simp
  finally show ?thesis by (simp only: x_def)
qed

lemma fl_int:
  assumes "\<bar>n\<bar> \<le> 2 ^ 53"
  shows "fl (of_int n) = of_int n"
proof (cases "\<bar>n\<bar> < 2 ^ 53")
  case True
  from fl_dyadic [OF True, of 0] show ?thesis by simp
next
  case False
  with assms have "\<bar>n\<bar> = 2 ^ 53" by simp
  then consider "n = 2 ^ 53" | "n = - (2 ^ 53)" by linarith
  then show ?thesis
  proof cases
    case 1
    from fl_dyadic [of "2 ^ 52" 1] have "fl (2 ^ 52 * 2) = 2 ^ 52 * 2" by simp
    with 1 show ?thesis by simp
  next
    case 2
    from fl_dyadic [of "- (2 ^ 52)" 1] have "fl (- (2 ^ 52) * 2) = - (2 ^ 52) * 2" by simp
    with 2 show ?thesis by simp
  qed
qed

lemma fl_nonneg: "0 \<le> x \<Longrightarrow> 0 \<le> fl x"
  by (simp add: fl_def Let_def rne_nonneg)

lemma fl_numeral [simp]: "numeral k \<le> (2 ^ 53 :: int) \<Longrightarrow> fl (numeral k) = numeral k"
  using fl_int [of "numeral k"] by simp

lemma fl_0 [simp]: "fl 0 = 0"
  by (simp add: fl_def)

lemma fl_1 [simp]: "fl 1 = 1"
  using fl_int [of 1] by simp

lemma rne_cases: "rne x = \<lfloor>x\<rfloor> \<or> rne x = \<lfloor>x\<rfloor> + 1"
  by (simp add: rne_def Let_def)

lemma rne_mono:
  assumes "x \<le> y"
  shows "rne x \<le> rne y"
proof (cases "\<lfloor>x\<rfloor> = \<lfloor>y\<rfloor>")
  case True
  with assms show ?thesis
    by (auto simp: rne_def Let_def)
next
  case False
  with assms have "\<lfloor>x\<rfloor> + 1 \<le> \<lfloor>y\<rfloor>"
    using floor_mono [OF assms] by linarith
  moreover have "rne x \<le> \<lfloor>x\<rfloor> + 1" using rne_cases [of x] by linarith
  moreover have "\<lfloor>y\<rfloor> \<le> rne y" using rne_cases [of y] by linarith
  ultimately show ?thesis by linarith
qed

lemma rne_minus: "rne (- x) = - rne x"
proof (cases "x \<in> \<int>")
  case True
  then obtain k where "x = of_int k" by (auto elim: Ints_cases)
  then have "- x = of_int (- k)" by simp
  then show ?thesis by (simp only: \<open>x = of_int k\<close> rne_of_int)
next
  case False
  then have ne: "x \<noteq> of_int \<lfloor>x\<rfloor>"
    by (metis Ints_of_int)
  have "\<lfloor>- x\<rfloor> = - \<lceil>x\<rceil>" by (simp add: ceiling_def)
  with ne have f: "\<lfloor>- x\<rfloor> = - \<lfloor>x\<rfloor> - 1"
    by (simp add: ceiling_altdef)
  have d: "0 < x - of_int \<lfloor>x\<rfloor>" using ne by linarith
  show ?thesis
  proof (cases "x - of_int \<lfloor>x\<rfloor> < 1/2")
    case True
    then show ?thesis unfolding rne_def Let_def f by simp
  next
    case False
    show ?thesis
    proof (cases "1/2 < x - of_int \<lfloor>x\<rfloor>")
      case True
      then show ?thesis unfolding rne_def Let_def f by simp
    next
      case F2: False
      with False have "x - of_int \<lfloor>x\<rfloor> = 1/2" by linarith
      then show ?thesis unfolding rne_def Let_def f by simp
    qed
  qed
qed

lemma expo_minus [simp]: "expo (- x) = expo x"
  by (simp add: expo_def)

lemma fl_minus: "fl (- x) = - fl x"
  by (simp add: fl_def Let_def rne_minus)

lemma fl_nonpos: "x \<le> 0 \<Longrightarrow> fl x \<le> 0"
  using fl_nonneg [of "- x"] by (simp add: fl_minus)

lemma fl_lower:
  assumes "0 < x"
  shows "2 powi expo x \<le> fl x"
proof -
  from assms have nz: "x \<noteq> 0" by simp
  define q :: real where "q = 2 powi (expo x - 52)"
  have q: "0 < q" by (simp add: q_def)
  from expo_bracket [OF nz] assms have "2 powi expo x \<le> x" by simp
  moreover have "(2::real) powi expo x = 2 ^ 52 * q"
    by (simp add: q_def power_int_diff)
  ultimately have "of_int (2 ^ 52) \<le> x / q"
    using q by (simp add: field_simps)
  then have "rne (of_int (2 ^ 52)) \<le> rne (x / q)" by (rule rne_mono)
  then have "(2 ^ 52 :: int) \<le> rne (x / q)" by (simp only: rne_of_int)
  then have "real_of_int (2 ^ 52) \<le> of_int (rne (x / q))" by (simp only: of_int_le_iff)
  then have "2 ^ 52 * q \<le> of_int (rne (x / q)) * q"
    using q by simp
  with nz show ?thesis
    by (simp add: fl_def Let_def q_def [symmetric] \<open>2 powi expo x = 2 ^ 52 * q\<close>)
qed

lemma fl_upper:
  assumes "0 < x"
  shows "fl x \<le> 2 powi (expo x + 1)"
proof -
  from assms have nz: "x \<noteq> 0" by simp
  define q :: real where "q = 2 powi (expo x - 52)"
  have q: "0 < q" by (simp add: q_def)
  from expo_bracket [OF nz] assms have "x < 2 powi (expo x + 1)" by simp
  moreover have p: "(2::real) powi (expo x + 1) = 2 ^ 53 * q"
    by (simp add: q_def power_int_diff power_int_add)
  ultimately have "x / q \<le> of_int (2 ^ 53)"
    using q by (simp add: field_simps)
  then have "rne (x / q) \<le> rne (of_int (2 ^ 53))" by (rule rne_mono)
  then have "rne (x / q) \<le> (2 ^ 53 :: int)" by (simp only: rne_of_int)
  then have "real_of_int (rne (x / q)) \<le> of_int (2 ^ 53)" by (simp only: of_int_le_iff)
  then have "of_int (rne (x / q)) * q \<le> 2 ^ 53 * q"
    using q by simp
  with nz show ?thesis
    by (simp add: fl_def Let_def q_def [symmetric] p)
qed

lemma fl_mono_pos:
  assumes "0 < x" "x \<le> y"
  shows "fl x \<le> fl y"
proof -
  from assms have y: "0 < y" and nz: "x \<noteq> 0" "y \<noteq> 0" by simp_all
  from expo_bracket [OF nz(1)] expo_bracket [OF nz(2)] assms y
  have "(2::real) powi expo x < 2 powi (expo y + 1)" by simp
  then have "expo x < expo y + 1"
    by (metis not_le power_int_increasing one_le_numeral)
  then consider "expo x = expo y" | "expo x + 1 \<le> expo y" by linarith
  then show ?thesis
  proof cases
    case 1
    define q :: real where "q = 2 powi (expo y - 52)"
    have q: "0 < q" by (simp add: q_def)
    from assms(2) q have "x / q \<le> y / q" by (simp add: divide_right_mono)
    then have "rne (x / q) \<le> rne (y / q)" by (rule rne_mono)
    then have "real_of_int (rne (x / q)) * q \<le> of_int (rne (y / q)) * q"
      using q by simp
    with nz 1 show ?thesis
      by (simp add: fl_def Let_def q_def [symmetric])
  next
    case 2
    then have "(2::real) powi (expo x + 1) \<le> 2 powi expo y"
      by (intro power_int_increasing) simp_all
    with fl_upper [OF assms(1)] fl_lower [OF y] show ?thesis by linarith
  qed
qed

lemma fl_mono:
  assumes "x \<le> y"
  shows "fl x \<le> fl y"
proof -
  consider "0 < x" | "x \<le> 0" "0 \<le> y" | "y < 0" using assms by linarith
  then show ?thesis
  proof cases
    case 1
    with assms show ?thesis by (intro fl_mono_pos)
  next
    case 2
    with fl_nonpos [of x] fl_nonneg [of y] show ?thesis by linarith
  next
    case 3
    with assms have "0 < - y" "- y \<le> - x" by simp_all
    then have "fl (- y) \<le> fl (- x)" by (rule fl_mono_pos)
    then show ?thesis by (simp add: fl_minus)
  qed
qed

lemma rne_up: "of_int n + 1/2 < y \<Longrightarrow> y \<le> of_int n + 1 \<Longrightarrow> rne y = n + 1"
proof -
  assume a: "of_int n + 1/2 < y" "y \<le> of_int n + 1"
  show ?thesis
  proof (cases "y = of_int n + 1")
    case True
    then have "y = of_int (n + 1)" by simp
    then show ?thesis by (simp only: rne_of_int)
  next
    case False
    with a have "\<lfloor>y\<rfloor> = n" by linarith
    with a show ?thesis by (simp add: rne_def Let_def)
  qed
qed

lemma rne_down: "of_int n \<le> y \<Longrightarrow> y < of_int n + 1/2 \<Longrightarrow> rne y = n"
proof -
  assume a: "of_int n \<le> y" "y < of_int n + 1/2"
  then have "\<lfloor>y\<rfloor> = n" by linarith
  with a show ?thesis by (simp add: rne_def Let_def)
qed

lemma rne_tie: "rne (of_int n + 1/2) = (if even n then n else n + 1)"
proof -
  have "\<lfloor>real_of_int n + 1/2\<rfloor> = n" by linarith
  then show ?thesis by (simp add: rne_def Let_def)
qed

lemma fl_grid_down:
  assumes n: "2 ^ 52 \<le> n" "n < 2 ^ 53" "even n"
      and x: "x \<le> (of_int n + 1/2) * 2 powi (e - 52)"
  shows "fl x \<le> of_int n * 2 powi (e - 52)"
proof -
  define q :: real where "q = 2 powi (e - 52)"
  have q: "0 < q" by (simp add: q_def)
  define t where "t = (real_of_int n + 1/2) * q"
  have pe: "(2::real) powi e = 2 ^ 52 * q" and pe1: "(2::real) powi (e + 1) = 2 ^ 53 * q"
    by (simp_all add: q_def power_int_diff power_int_add)
  from n(1) have "real_of_int (2 ^ 52) \<le> of_int n" by (simp only: of_int_le_iff)
  then have n1: "(2::real) ^ 52 \<le> of_int n" by simp
  from n(2) have "n + 1 \<le> 2 ^ 53" by simp
  then have "real_of_int (n + 1) \<le> of_int (2 ^ 53)" by (simp only: of_int_le_iff)
  then have n2: "real_of_int n + 1 \<le> 2 ^ 53" by simp
  have t0: "0 < t" using n1 q by (simp add: t_def)
  have "2 ^ 52 * q \<le> t"
    unfolding t_def using n1 q by (intro mult_right_mono) simp_all
  moreover have "t < 2 ^ 53 * q"
    unfolding t_def using n2 q by (intro mult_strict_right_mono) simp_all
  ultimately have "2 powi e \<le> \<bar>t\<bar>" "\<bar>t\<bar> < 2 powi (e + 1)"
    using t0 by (simp_all add: pe pe1)
  then have "fl t = of_int (rne (t / 2 powi (e - 52))) * 2 powi (e - 52)"
    by (rule fl_eval)
  also have "t / 2 powi (e - 52) = of_int n + 1/2"
    using q by (simp add: t_def q_def)
  also have "rne (of_int n + 1/2) = n"
    using n(3) by (simp add: rne_tie)
  finally have "fl t = of_int n * 2 powi (e - 52)" .
  moreover from x have "fl x \<le> fl t"
    unfolding t_def q_def by (rule fl_mono)
  ultimately show ?thesis by simp
qed

lemma fl_grid_up:
  assumes n: "2 ^ 52 \<le> n" "n + 1 < 2 ^ 53"
      and x: "(of_int n + 1/2) * 2 powi (e - 52) < x"
  shows "(of_int n + 1) * 2 powi (e - 52) \<le> fl x"
proof -
  define q :: real where "q = 2 powi (e - 52)"
  have q: "0 < q" by (simp add: q_def)
  have pe: "(2::real) powi e = 2 ^ 52 * q" and pe1: "(2::real) powi (e + 1) = 2 ^ 53 * q"
    by (simp_all add: q_def power_int_diff power_int_add)
  from n(1) have "real_of_int (2 ^ 52) \<le> of_int n" by (simp only: of_int_le_iff)
  then have n1: "(2::real) ^ 52 \<le> of_int n" by simp
  from n(2) have "real_of_int (n + 1) < of_int (2 ^ 53)" by (simp only: of_int_less_iff)
  then have n2: "real_of_int n + 1 < 2 ^ 53" by simp
  from n n(2) have a: "\<bar>n + 1\<bar> < 2 ^ 53" by simp
  have d: "fl (of_int (n + 1) * 2 powi (e - 52)) = of_int (n + 1) * 2 powi (e - 52)"
    using a by (rule fl_dyadic)
  show ?thesis
  proof (cases "x \<le> (of_int n + 1) * q")
    case True
    have "2 ^ 52 * q \<le> (real_of_int n + 1/2) * q"
      using n1 q by (intro mult_right_mono) simp_all
    moreover from x have "(real_of_int n + 1/2) * q < x" by (simp only: q_def)
    ultimately have lo: "2 ^ 52 * q < x" by linarith
    have "(real_of_int n + 1) * q < 2 ^ 53 * q"
      using n2 q by (intro mult_strict_right_mono) simp_all
    with True have hi: "x < 2 ^ 53 * q" by simp
    from lo q have x0: "0 < x"
      by (smt (verit) mult_pos_pos zero_less_power)
    from lo hi x0 have "2 powi e \<le> \<bar>x\<bar>" "\<bar>x\<bar> < 2 powi (e + 1)"
      by (simp_all add: pe pe1)
    then have "fl x = of_int (rne (x / 2 powi (e - 52))) * 2 powi (e - 52)"
      by (rule fl_eval)
    moreover have "rne (x / q) = n + 1"
    proof (rule rne_up)
      from x q show "real_of_int n + 1/2 < x / q"
        by (simp add: q_def pos_less_divide_eq)
      from True q show "x / q \<le> real_of_int n + 1"
        by (simp add: pos_divide_le_eq)
    qed
    ultimately show ?thesis by (simp add: q_def)
  next
    case False
    then have "of_int (n + 1) * 2 powi (e - 52) \<le> x" by (simp add: q_def)
    then have "fl (of_int (n + 1) * 2 powi (e - 52)) \<le> fl x" by (rule fl_mono)
    with d show ?thesis by simp
  qed
qed

lemma ratio_above_34:
  assumes "3/4 + 1 / 2 ^ 54 < r"
  shows "75 < fl (fl r * 100)"
proof -
  have "(of_int (3 * 2 ^ 51) + 1) * 2 powi (- 1 - 52) \<le> fl r"
    using assms by (intro fl_grid_up) (simp_all add: power_int_minus)
  then have a: "3/4 + 1 / 2 ^ 53 \<le> fl r"
    by (simp add: power_int_minus)
  have "(of_int (75 * 2 ^ 46) + 1) * 2 powi (6 - 52) \<le> fl (fl r * 100)"
    using a by (intro fl_grid_up) (simp_all add: power_int_minus)
  then show ?thesis
    by (simp add: power_int_minus)
qed

lemma ratio_upto_34:
  assumes "r \<le> 3/4 + 1 / 2 ^ 54"
  shows "fl (fl r * 100) \<le> 75"
proof -
  have "fl r \<le> of_int (3 * 2 ^ 51) * 2 powi (- 1 - 52)"
    using assms by (intro fl_grid_down) (simp_all add: power_int_minus)
  then have "fl r * 100 \<le> 75"
    by (simp add: power_int_minus)
  then have "fl (fl r * 100) \<le> fl 75" by (rule fl_mono)
  then show ?thesis by simp
qed

lemma ratio_above_12:
  assumes "1/2 + 1 / 2 ^ 54 < r"
  shows "50 < fl (fl r * 100)"
proof -
  have "(of_int (2 ^ 52) + 1) * 2 powi (- 1 - 52) \<le> fl r"
    using assms by (intro fl_grid_up) (simp_all add: power_int_minus)
  then have a: "1/2 + 1 / 2 ^ 53 \<le> fl r"
    by (simp add: power_int_minus)
  have "(of_int (50 * 2 ^ 47) + 1) * 2 powi (5 - 52) \<le> fl (fl r * 100)"
    using a by (intro fl_grid_up) (simp_all add: power_int_minus)
  then show ?thesis
    by (simp add: power_int_minus)
qed

lemma ratio_upto_12:
  assumes "r \<le> 1/2 + 1 / 2 ^ 54"
  shows "fl (fl r * 100) \<le> 50"
proof -
  have "fl r \<le> of_int (2 ^ 52) * 2 powi (- 1 - 52)"
    using assms by (intro fl_grid_down) (simp_all add: power_int_minus)
  then have "fl r * 100 \<le> 50"
    by (simp add: power_int_minus)
  then have "fl (fl r * 100) \<le> fl 50" by (rule fl_mono)
  then show ?thesis by simp
qed

lemma ratio_above_14:
  assumes "1/4 + 1 / 2 ^ 55 < r"
  shows "25 < fl (fl r * 100)"
proof -
  have "(of_int (2 ^ 52) + 1) * 2 powi (- 2 - 52) \<le> fl r"
    using assms by (intro fl_grid_up) (simp_all add: power_int_minus)
  then have a: "1/4 + 1 / 2 ^ 54 \<le> fl r"
    by (simp add: power_int_minus)
  have "(of_int (25 * 2 ^ 48) + 1) * 2 powi (4 - 52) \<le> fl (fl r * 100)"
    using a by (intro fl_grid_up) (simp_all add: power_int_minus)
  then show ?thesis
    by (simp add: power_int_minus)
qed

lemma ratio_upto_14:
  assumes "r \<le> 1/4 + 1 / 2 ^ 55"
  shows "fl (fl r * 100) \<le> 25"
proof -
  have "fl r \<le> of_int (2 ^ 52) * 2 powi (- 2 - 52)"
    using assms by (intro fl_grid_down) (simp_all add: power_int_minus)
  then have "fl r * 100 \<le> 25"
    by (simp add: power_int_minus)
  then have "fl (fl r * 100) \<le> fl 25" by (rule fl_mono)
  then show ?thesis by simp
qed

lemma fl_Ints:
  assumes "x \<in> \<int>" "\<bar>x\<bar> \<le> 2 ^ 53"
  shows "fl x = x"
proof -
  from assms(1) obtain n where x: "x = of_int n" by (auto elim: Ints_cases)
  with assms(2) have "real_of_int \<bar>n\<bar> \<le> of_int (2 ^ 53)" by simp
  then have "\<bar>n\<bar> \<le> 2 ^ 53" by (simp only: of_int_le_iff)
  then show ?thesis unfolding x by (rule fl_int)
qed

lemma floor_fl_bracket:
  assumes "\<bar>x\<bar> \<le> 2 ^ 53"
  shows "\<lfloor>x\<rfloor> \<le> \<lfloor>fl x\<rfloor> \<and> \<lfloor>fl x\<rfloor> \<le> \<lceil>x\<rceil>"
proof -
  from assms have "real_of_int (- (2 ^ 53)) \<le> x" "x \<le> real_of_int (2 ^ 53)"
    by simp_all
  then have "- (2 ^ 53) \<le> \<lfloor>x\<rfloor>" "\<lceil>x\<rceil> \<le> 2 ^ 53"
    by (simp_all only: le_floor_iff ceiling_le_iff)
  moreover have "\<lfloor>x\<rfloor> \<le> \<lceil>x\<rceil>" by (rule floor_le_ceiling)
  ultimately have "\<bar>\<lfloor>x\<rfloor>\<bar> \<le> 2 ^ 53" "\<bar>\<lceil>x\<rceil>\<bar> \<le> 2 ^ 53" by linarith+
  then have "real_of_int \<bar>\<lfloor>x\<rfloor>\<bar> \<le> of_int (2 ^ 53)" "real_of_int \<bar>\<lceil>x\<rceil>\<bar> \<le> of_int (2 ^ 53)"
    by (simp_all only: of_int_le_iff)
  then have "\<bar>real_of_int \<lfloor>x\<rfloor>\<bar> \<le> 2 ^ 53" "\<bar>real_of_int \<lceil>x\<rceil>\<bar> \<le> 2 ^ 53"
    by simp_all
  then have f: "fl (of_int \<lfloor>x\<rfloor>) = of_int \<lfloor>x\<rfloor>" and c: "fl (of_int \<lceil>x\<rceil>) = of_int \<lceil>x\<rceil>"
    by (simp_all add: fl_Ints)
  have "fl (of_int \<lfloor>x\<rfloor>) \<le> fl x" by (rule fl_mono) simp
  with f have "of_int \<lfloor>x\<rfloor> \<le> fl x" by simp
  then have 1: "\<lfloor>x\<rfloor> \<le> \<lfloor>fl x\<rfloor>" by (simp add: le_floor_iff)
  have "fl x \<le> fl (of_int \<lceil>x\<rceil>)" by (rule fl_mono) simp
  with c have "fl x \<le> of_int \<lceil>x\<rceil>" by simp
  then have 2: "\<lfloor>fl x\<rfloor> \<le> \<lceil>x\<rceil>"
    by (metis floor_mono floor_of_int)
  from 1 2 show ?thesis by simp
qed

section \<open>Basic facts about the number model and the scenario data\<close>

lemma jgt_Fin [simp]: "jgt (Fin a) (Fin b) = (b < a)"
  by (simp add: jgt_def)

lemma jdiv_nonzero [simp]: "b \<noteq> 0 \<Longrightarrow> jdiv a b = Fin (a / b)"
  by (simp add: jdiv_def)

lemma fdiv_nonzero [simp]: "b \<noteq> 0 \<Longrightarrow> fdiv a b = Fin (fl (a / b))"
  by (simp add: fdiv_def)

lemma with_health_simps [simp]:
  "currentValue (degradation (with_health c m)) = c"
  "maxValue (degradation (with_health c m)) = m"
  by (simp_all add: with_health_def)

lemma scenario_simps [simp]:
  "degradation scenario_asset = scenario_degradation"
  "quantity scenario_asset = 5" "inUse scenario_asset = 0"
  "eq_id scenario_asset = ''a1''" "acquisitionCost scenario_asset = 1000"
  "deg_type scenario_degradation = cycles" "maxValue scenario_degradation = 100"
  "currentValue scenario_degradation = 100" "degradationRate scenario_degradation = 1"
  by (simp_all add: scenario_asset_def scenario_degradation_def)

lemma scenario_tx_simps [simp]:
  "equipmentId (scenario_tx k q) = ''a1''" "tx_type (scenario_tx k q) = k"
  "tx_quantity (scenario_tx k q) = q"
  by (simp_all add: scenario_tx_def)

lemma scenario_consumable_simps [simp]:
  "c_id scenario_consumable = ''c1''" "stockLevel scenario_consumable = 5"
  "minimumStock scenario_consumable = 10" "reorderPoint scenario_consumable = 20"
  "costPerUnit scenario_consumable = 2"
  by (simp_all add: scenario_consumable_def)

lemma with_health_fields [simp]:
  "acquisitionCost (with_health c m) = 1000"
  "deg_type (degradation (with_health c m)) = cycles"
  "degradationRate (degradation (with_health c m)) = 1"
  "eq_id (with_health c m) = ''a1''"
  by (simp_all add: with_health_def)

lemma jle_Fin [simp]: "jle (Fin a) (Fin b) = (a \<le> b)"
  by auto

lemma with_health_more [simp]:
  "quantity (with_health c m) = 5" "inUse (with_health c m) = 0"
  "eq_name (with_health c m) = ''Platform A''"
  by (simp_all add: with_health_def scenario_asset_def)

section \<open>Health status\<close>

text \<open>
  The percentage the status is read from: the quotient rounded, then the product rounded.
\<close>

lemma healthPercentage_ratio:
  "maxValue (degradation e) \<noteq> 0 \<Longrightarrow>
   healthPercentage e =
     Fin (fl (fl (currentValue (degradation e) / maxValue (degradation e)) * 100))"
  by (simp add: healthPercentage_def)

lemma bands_of_ratio:
  assumes "healthPercentage e = Fin (fl (fl r * 100))"
  shows "status (getHealthStatus e) =
           (if 3/4 + 1 / 2 ^ 54 < r then good
            else if 1/2 + 1 / 2 ^ 54 < r then fair
            else if 1/4 + 1 / 2 ^ 55 < r then poor
            else critical)
         \<and> (r = 3/4 \<longrightarrow> status (getHealthStatus e) = fair)
         \<and> (r = 1/2 \<longrightarrow> status (getHealthStatus e) = poor)
         \<and> (r = 1/4 \<longrightarrow> status (getHealthStatus e) = critical)"
proof -
  have a: "(75 < fl (fl r * 100)) = (3/4 + 1 / 2 ^ 54 < r)"
    using ratio_above_34 [of r] ratio_upto_34 [of r] by linarith
  have b: "(50 < fl (fl r * 100)) = (1/2 + 1 / 2 ^ 54 < r)"
    using ratio_above_12 [of r] ratio_upto_12 [of r] by linarith
  have c: "(25 < fl (fl r * 100)) = (1/4 + 1 / 2 ^ 55 < r)"
    using ratio_above_14 [of r] ratio_upto_14 [of r] by linarith
  show ?thesis
    by (simp add: getHealthStatus_def assms a b c)
qed

lemma needsMaintenance_iff:
  "needsMaintenance (getHealthStatus e) \<longleftrightarrow>
     status (getHealthStatus e) = poor \<or> status (getHealthStatus e) = critical"
  by (simp add: getHealthStatus_def)

lemma status_by_ratio:
  assumes "maxValue (degradation e) \<noteq> 0"
  shows "status (getHealthStatus e) =
           (if 3/4 + 1 / 2 ^ 54 < currentValue (degradation e) / maxValue (degradation e) then good
            else if 1/2 + 1 / 2 ^ 54 < currentValue (degradation e) / maxValue (degradation e) then fair
            else if 1/4 + 1 / 2 ^ 55 < currentValue (degradation e) / maxValue (degradation e) then poor
            else critical)"
  using bands_of_ratio [OF healthPercentage_ratio [OF assms]] by simp

text \<open>
  Claim C3, as the code has it. For an asset with a \<open>maxValue\<close> other than zero the
  status is determined by the ratio \<open>currentValue / maxValue\<close> alone. The code
  compares the percentage it computed in binary64 with 75, 50 and 25, strictly, and that
  percentage is above 75 exactly when the ratio is above \<open>3/4 + 2^-54\<close>, above 50
  exactly when the ratio is above \<open>1/2 + 2^-54\<close>, and above 25 exactly when the
  ratio is above \<open>1/4 + 2^-55\<close>: these are the ratios from which the quotient
  rounds to the next binary64 number above \<open>3/4\<close>, \<open>1/2\<close> and \<open>1/4\<close>.
  So the status is good above the first, fair above the second, poor above the third and
  critical otherwise; a ratio of exactly 3/4 is fair, exactly 1/2 is poor and exactly 1/4
  is critical: each boundary belongs to the lower band. \<open>needsMaintenance\<close> holds
  exactly for poor and critical.
\<close>

theorem getHealthStatus_bands:
  assumes "maxValue (degradation e) \<noteq> 0"
  shows "status (getHealthStatus e) =
           (if 3/4 + 1 / 2 ^ 54 < currentValue (degradation e) / maxValue (degradation e) then good
            else if 1/2 + 1 / 2 ^ 54 < currentValue (degradation e) / maxValue (degradation e) then fair
            else if 1/4 + 1 / 2 ^ 55 < currentValue (degradation e) / maxValue (degradation e) then poor
            else critical)
         \<and> (currentValue (degradation e) / maxValue (degradation e) = 3/4
              \<longrightarrow> status (getHealthStatus e) = fair)
         \<and> (currentValue (degradation e) / maxValue (degradation e) = 1/2
              \<longrightarrow> status (getHealthStatus e) = poor)
         \<and> (currentValue (degradation e) / maxValue (degradation e) = 1/4
              \<longrightarrow> status (getHealthStatus e) = critical)
         \<and> (needsMaintenance (getHealthStatus e) \<longleftrightarrow>
              status (getHealthStatus e) = poor \<or> status (getHealthStatus e) = critical)"
  using bands_of_ratio [OF healthPercentage_ratio [OF assms]] needsMaintenance_iff [of e]
  by blast

text \<open>
  The binary64 numbers nearest to 7.575 and to 10.1. Their quotient is above 3/4 by less
  than \<open>2^-54\<close>.
\<close>

lemma binary64_7575: "fl 7.575 = 8528691794332877 / 1125899906842624"
  by (subst fl_eval [where e = 2]) (simp_all add: rne_def)

lemma binary64_101: "fl 10.1 = 5685794529555251 / 562949953421312"
  by (subst fl_eval [where e = 3]) (simp_all add: rne_def)

text \<open>
  Witness for C3: an asset at 76 of 100 is good, one at 75 of 100 is fair, one at 50 of
  100 is poor and needs maintenance, one at 25 of 100 is critical, and one at 7.575 of
  10.1 (as binary64 numbers) is fair.
\<close>

theorem getHealthStatus_bands_witness:
  "(100::real) \<noteq> 0
   \<and> status (getHealthStatus (with_health 76 100)) = good
   \<and> status (getHealthStatus (with_health 75 100)) = fair
   \<and> status (getHealthStatus (with_health 50 100)) = poor
   \<and> needsMaintenance (getHealthStatus (with_health 50 100))
   \<and> status (getHealthStatus (with_health 25 100)) = critical
   \<and> 3/4 < (8528691794332877 / 1125899906842624 :: real) / (5685794529555251 / 562949953421312)
   \<and> status (getHealthStatus
         (with_health (8528691794332877 / 1125899906842624) (5685794529555251 / 562949953421312)))
       = fair"
  using getHealthStatus_bands [of "with_health 76 100"]
        getHealthStatus_bands [of "with_health 75 100"]
        getHealthStatus_bands [of "with_health 50 100"]
        getHealthStatus_bands [of "with_health 25 100"]
        getHealthStatus_bands
          [of "with_health (8528691794332877 / 1125899906842624) (5685794529555251 / 562949953421312)"]
  by simp

text \<open>
  Counterexample for C3 as stated: at a ratio of exactly 0.75 the status is not good.
\<close>

theorem boundary_not_higher_band:
  "currentValue (degradation (with_health 75 100)) / maxValue (degradation (with_health 75 100))
     = 0.75
   \<and> status (getHealthStatus (with_health 75 100)) \<noteq> good"
  using status_by_ratio [of "with_health 75 100"] by simp

section \<open>Time to maintenance and time to replacement\<close>

lemma scenario_host_simps [simp]:
  "localTime scenario_host = 1704240000000" "localTZA scenario_host t = 0"
  by (simp_all add: scenario_host_def)

lemma with_rate_simps [simp]:
  "degradationRate (degradation (with_rate r e)) = r"
  "currentValue (degradation (with_rate r e)) = currentValue (degradation e)"
  "maxValue (degradation (with_rate r e)) = maxValue (degradation e)"
  "deg_type (degradation (with_rate r e)) = deg_type (degradation e)"
  by (simp_all add: with_rate_def)

lemma fl_pos: "0 < x \<Longrightarrow> 0 < fl x"
proof -
  assume x: "0 < x"
  have "(0::real) < 2 powi expo x" by simp
  with fl_lower [OF x] show ?thesis by linarith
qed

lemma fl_eq_0_iff [simp]: "fl x = 0 \<longleftrightarrow> x = 0"
proof
  assume a: "fl x = 0"
  show "x = 0"
  proof (rule ccontr)
    assume "x \<noteq> 0"
    then consider "0 < x" | "0 < - x" by linarith
    then show False
    proof cases
      case 1
      with fl_pos [of x] a show False by simp
    next
      case 2
      with fl_pos [of "- x"] a show False by (simp add: fl_minus)
    qed
  qed
qed simp


lemma dailyRate_pos:
  "0 < degradationRate d \<Longrightarrow> 0 < dailyRate d"
  by (cases "deg_type d") (simp_all add: dailyRate_def fmul_def fl_pos)

lemma predictReplacement_cases:
  "predictReplacement host e =
     (case timeAfterDays host
             (jfloor (fdiv (currentValue (degradation e)) (dailyRate (degradation e)))) of
        None \<Rightarrow> Inl RangeError
      | Some t \<Rightarrow>
          Inr \<lparr>daysUntilReplacement =
                 jfloor (fdiv (currentValue (degradation e)) (dailyRate (degradation e))),
               estimatedReplacementDate = t,
               currentHealthPercentage =
                 jfl (jmul (fdiv (currentValue (degradation e)) (maxValue (degradation e)))
                        (Fin 100))\<rparr>)"
  by (simp add: predictReplacement_def Let_def)

lemma predictReplacement_zero_rate:
  assumes "degradationRate (degradation e) = 0"
  shows "predictReplacement host e = Inl RangeError"
proof -
  from assms have "dailyRate (degradation e) = 0"
    by (cases "deg_type (degradation e)") (simp_all add: dailyRate_def fmul_def)
  then show ?thesis
    by (simp add: predictReplacement_cases fdiv_def timeAfterDays_def)
qed



text \<open>The binary64 number nearest to 1/10, and two quotients by it.\<close>

lemma binary64_tenth: "fl 0.1 = 3602879701896397 / 36028797018963968"
  by (subst fl_eval [where e = "- 4"]) (simp_all add: rne_def power_int_minus)

lemma fl_tenth [simp]:
  "fl (3602879701896397 / 36028797018963968) = 3602879701896397 / 36028797018963968"
  using fl_dyadic [of 3602879701896397 "- 55"] by (simp add: power_int_minus)

lemma three_by_tenth: "fl (108086391056891904 / 3602879701896397) = 30"
  by (subst fl_eval [where e = 4]) (simp_all add: rne_def power_int_minus)

lemma seventy_five_by_tenth: "fl (2702159776422297600 / 3602879701896397) = 750"
  by (subst fl_eval [where e = 9]) (simp_all add: rne_def power_int_minus)

lemma quotients_by_tenth:
  "(3::real) / (3602879701896397 / 36028797018963968) = 108086391056891904 / 3602879701896397"
  "(75::real) / (3602879701896397 / 36028797018963968) = 2702159776422297600 / 3602879701896397"
  by simp_all

text \<open>
  The quotient is rounded before the floor is taken: at a rate of 0.1 (as a binary64
  number, which is above 1/10) the maintenance of the scenario asset is 750 days away and
  the replacement of an asset with 3 cycles left is 30 days away, where the floors of the
  exact quotients are 749 and 29.
\<close>

lemma prediction_days_rounded:
  "daysUntilMaintenance
      (predictMaintenanceNeeds (with_rate (3602879701896397 / 36028797018963968) scenario_asset)
         \<lparr>cyclesPerDay = None, hoursPerDay = None\<rparr>) = Fin 750
   \<and> \<lfloor>(75::real) / (3602879701896397 / 36028797018963968)\<rfloor> = 749
   \<and> predictReplacement scenario_host
         (with_rate (3602879701896397 / 36028797018963968) (with_health 3 3)) =
       Inr \<lparr>daysUntilReplacement = Fin 30, estimatedReplacementDate = 1706832000000,
            currentHealthPercentage = Fin 100\<rparr>
   \<and> \<lfloor>(3::real) / (3602879701896397 / 36028797018963968)\<rfloor> = 29"
  by (simp add: predictMaintenanceNeeds_def or_default_def fmul_def fsub_def seventy_five_by_tenth
        three_by_tenth predictReplacement_cases dailyRate_def timeAfterDays_def msPerDay_def)

text \<open>
  The days \<open>predictReplacement\<close> returns are the floor of the exact quotient or one
  more, for a quotient of at most \<open>2^53\<close> in magnitude.
\<close>

lemma replacement_days_bracket:
  assumes "predictReplacement host e = Inr p"
      and "dailyRate (degradation e) \<noteq> 0"
      and "\<bar>currentValue (degradation e) / dailyRate (degradation e)\<bar> \<le> 2 ^ 53"
  shows "\<exists>n. daysUntilReplacement p = Fin (of_int n)
           \<and> \<lfloor>currentValue (degradation e) / dailyRate (degradation e)\<rfloor> \<le> n
           \<and> n \<le> \<lceil>currentValue (degradation e) / dailyRate (degradation e)\<rceil>"
proof -
  from assms(1,2)
  have "daysUntilReplacement p =
          Fin (of_int \<lfloor>fl (currentValue (degradation e) / dailyRate (degradation e))\<rfloor>)"
    by (auto simp: predictReplacement_cases split: option.splits)
  with floor_fl_bracket [OF assms(3)] show ?thesis by blast
qed


section \<open>Equipment transactions\<close>

lemma available_def': "available (getInventoryStatus e) =
    quantity e - inUse e - (if needsMaintenance (getHealthStatus e) then 1 else 0)"
  by (simp add: getInventoryStatus_def Let_def)

lemma scenario_healthy [simp]: "\<not> needsMaintenance (getHealthStatus scenario_asset)"
  by (simp add: getHealthStatus_def healthPercentage_def)



text \<open>
  Claim C1 at a failing input. An asset with 5 units, all 5 in use, satisfies
  \<open>0 \<le> inUse \<le> quantity\<close>; a disposal of 3 is accepted, since the disposal
  branch compares the quantity disposed with \<open>quantity\<close> only, and the asset returned
  has \<open>quantity = 2\<close> and \<open>inUse = 5\<close>.
\<close>

theorem disposal_breaks_inUse_bound:
  "0 \<le> inUse (scenario_asset\<lparr>inUse := 5\<rparr>)
   \<and> inUse (scenario_asset\<lparr>inUse := 5\<rparr>) \<le> quantity (scenario_asset\<lparr>inUse := 5\<rparr>)
   \<and> success (processEquipmentTransaction scenario_now (scenario_tx disposal 3) [scenario_asset\<lparr>inUse := 5\<rparr>])
   \<and> updatedEquipment (processEquipmentTransaction scenario_now (scenario_tx disposal 3) [scenario_asset\<lparr>inUse := 5\<rparr>])
        = Some (scenario_asset\<lparr>inUse := 5, quantity := 2\<rparr>)
   \<and> \<not> inUse (scenario_asset\<lparr>inUse := 5, quantity := 2\<rparr>)
          \<le> quantity (scenario_asset\<lparr>inUse := 5, quantity := 2\<rparr>)"
  by (simp add: processEquipmentTransaction_def Let_def)

text \<open>
  Acquisition, deployment and return keep the bound, for a quantity that is not
  negative, and so does a disposal of no more than \<open>quantity - inUse\<close> units.
\<close>

lemma inUse_bound_kept:
  assumes "0 \<le> inUse e" "inUse e \<le> quantity e" "0 \<le> tx_quantity tx"
      and "find (\<lambda>x. eq_id x = equipmentId tx) eqs = Some e"
      and "tx_type tx = disposal \<longrightarrow> tx_quantity tx \<le> quantity e - inUse e"
      and "updatedEquipment (processEquipmentTransaction now tx eqs) = Some e'"
  shows "0 \<le> inUse e' \<and> inUse e' \<le> quantity e'"
  using assms
  by (cases "tx_type tx")
     (auto simp: processEquipmentTransaction_def available_def' Let_def split: if_splits)

text \<open>
  Claim C8, for counts that are whole numbers up to \<open>2^53\<close>, on which the sums and
  differences of the source are exact. A successful deployment of \<open>q\<close> units,
  followed by a successful return of \<open>q\<close> units applied to the asset the
  deployment returned, gives an asset whose \<open>inUse\<close> is the value before the
  deployment. Its \<open>quantity\<close> is unchanged. Its \<open>currentValue\<close> is unchanged
  when the degradation type is not cycles, and for a degradation rate that is not
  negative it is no higher than before (or zero, for a value that was negative).
\<close>

theorem deploy_then_return:
  assumes "find (\<lambda>x. eq_id x = equipmentId tx1) eqs = Some e"
      and "tx_type tx1 = deployment"
      and "success (processEquipmentTransaction now1 tx1 eqs)"
      and "updatedEquipment (processEquipmentTransaction now1 tx1 eqs) = Some e1"
      and "find (\<lambda>x. eq_id x = equipmentId tx2) eqs' = Some e1"
      and "tx_type tx2 = return"
      and "tx_quantity tx2 = tx_quantity tx1"
      and "success (processEquipmentTransaction now2 tx2 eqs')"
      and "quantity e \<in> \<int>" "inUse e \<in> \<int>" "tx_quantity tx1 \<in> \<int>"
      and "0 \<le> inUse e" "0 \<le> tx_quantity tx1" "quantity e \<le> 2 ^ 53"
  shows "\<exists>e2. updatedEquipment (processEquipmentTransaction now2 tx2 eqs') = Some e2
              \<and> inUse e2 = inUse e
              \<and> quantity e2 = quantity e
              \<and> (deg_type (degradation e) \<noteq> cycles
                    \<longrightarrow> currentValue (degradation e2) = currentValue (degradation e))
              \<and> (0 \<le> degradationRate (degradation e)
                    \<longrightarrow> currentValue (degradation e2) \<le> max 0 (currentValue (degradation e)))"
  using assms(1-8)
  by (cases "deg_type (degradation e)")
     (auto simp: processEquipmentTransaction_def available_def' Let_def calculateDegradation_def
           split: if_splits)

text \<open>
  Witness for C8: deploying 2 units of the scenario asset and returning 2 leaves none in
  use, with the value not above its 100.
\<close>

theorem deploy_then_return_witness:
  "find (\<lambda>x. eq_id x = equipmentId (scenario_tx deployment 2)) [scenario_asset] = Some scenario_asset
   \<and> success (processEquipmentTransaction scenario_now (scenario_tx deployment 2) [scenario_asset])
   \<and> updatedEquipment (processEquipmentTransaction scenario_now (scenario_tx deployment 2) [scenario_asset])
        = Some (scenario_asset\<lparr>inUse := 2\<rparr>)
   \<and> find (\<lambda>x. eq_id x = equipmentId (scenario_tx return 2)) [scenario_asset\<lparr>inUse := 2\<rparr>]
        = Some (scenario_asset\<lparr>inUse := 2\<rparr>)
   \<and> success (processEquipmentTransaction scenario_now (scenario_tx return 2) [scenario_asset\<lparr>inUse := 2\<rparr>])
   \<and> quantity scenario_asset \<in> \<int> \<and> inUse scenario_asset \<in> \<int>
   \<and> tx_quantity (scenario_tx deployment 2) \<in> \<int>
   \<and> quantity scenario_asset \<le> 2 ^ 53
   \<and> (\<exists>e2. updatedEquipment
               (processEquipmentTransaction scenario_now (scenario_tx return 2) [scenario_asset\<lparr>inUse := 2\<rparr>])
               = Some e2
             \<and> inUse e2 = 0 \<and> quantity e2 = 5 \<and> currentValue (degradation e2) \<le> 100)"
proof -
  have 1: "find (\<lambda>x. eq_id x = equipmentId (scenario_tx deployment 2)) [scenario_asset] = Some scenario_asset"
    by simp
  have 2: "success (processEquipmentTransaction scenario_now (scenario_tx deployment 2) [scenario_asset])"
    by (simp add: processEquipmentTransaction_def available_def' Let_def)
  have 3: "updatedEquipment (processEquipmentTransaction scenario_now (scenario_tx deployment 2) [scenario_asset])
            = Some (scenario_asset\<lparr>inUse := 2\<rparr>)"
    by (simp add: processEquipmentTransaction_def available_def' Let_def)
  have 4: "find (\<lambda>x. eq_id x = equipmentId (scenario_tx return 2)) [scenario_asset\<lparr>inUse := 2\<rparr>]
            = Some (scenario_asset\<lparr>inUse := 2\<rparr>)"
    by simp
  have 5: "success (processEquipmentTransaction scenario_now (scenario_tx return 2) [scenario_asset\<lparr>inUse := 2\<rparr>])"
    by (simp add: processEquipmentTransaction_def available_def' Let_def)
  have 6: "quantity scenario_asset \<in> \<int>" "inUse scenario_asset \<in> \<int>"
    "tx_quantity (scenario_tx deployment 2) \<in> \<int>" "quantity scenario_asset \<le> 2 ^ 53"
    by simp_all
  from deploy_then_return [OF 1 _ 2 3 4 _ _ 5 6(1,2,3) _ _ 6(4)] 1 2 3 4 5 6
  show ?thesis by simp
qed

section \<open>Procurement needs\<close>

lemma equipmentNeed_raises:
  "predictReplacement host eq = Inl RangeError \<Longrightarrow>
   equipmentNeed host uuid now needs eq = Inl RangeError"
  by (simp add: equipmentNeed_def Let_def)

lemma equipmentNeed_returns:
  assumes "predictReplacement host eq \<noteq> Inl RangeError"
  shows "\<exists>needs'. equipmentNeed host uuid now needs eq = Inr needs'
           \<and> filter (\<lambda>n. itemType n = consumable_item) needs'
               = filter (\<lambda>n. itemType n = consumable_item) needs"
proof (cases "predictReplacement host eq")
  case (Inl err)
  with assms show ?thesis by (cases err) simp
next
  case (Inr p)
  then show ?thesis by (simp add: equipmentNeed_def Let_def)
qed

lemma equipmentNeeds_raises:
  assumes "eq \<in> set eqs" "predictReplacement host eq = Inl RangeError"
  shows "equipmentNeeds host uuid now needs eqs = Inl RangeError"
  using assms
proof (induction eqs arbitrary: needs)
  case Nil
  then show ?case by simp
next
  case (Cons a eqs)
  show ?case
  proof (cases "equipmentNeed host uuid now needs a")
    case (Inl err)
    then show ?thesis by (cases err) simp
  next
    case (Inr needs')
    with Cons.prems equipmentNeed_raises [of host a uuid now needs] have "eq \<in> set eqs"
      by auto
    with Cons.IH Cons.prems(2) Inr show ?thesis by simp
  qed
qed

lemma equipmentNeeds_returns:
  assumes "\<forall>eq \<in> set eqs. predictReplacement host eq \<noteq> Inl RangeError"
  shows "\<exists>needs'. equipmentNeeds host uuid now needs eqs = Inr needs'
           \<and> filter (\<lambda>n. itemType n = consumable_item) needs'
               = filter (\<lambda>n. itemType n = consumable_item) needs"
  using assms
proof (induction eqs arbitrary: needs)
  case Nil
  then show ?case by simp
next
  case (Cons a eqs)
  from Cons.prems have "predictReplacement host a \<noteq> Inl RangeError" by simp
  from equipmentNeed_returns [OF this, of uuid now needs]
  obtain needs1 where 1: "equipmentNeed host uuid now needs a = Inr needs1"
    "filter (\<lambda>n. itemType n = consumable_item) needs1
       = filter (\<lambda>n. itemType n = consumable_item) needs"
    by blast
  from Cons.prems have "\<forall>eq \<in> set eqs. predictReplacement host eq \<noteq> Inl RangeError" by simp
  from Cons.IH [OF this, of needs1]
  obtain needs2 where 2: "equipmentNeeds host uuid now needs1 eqs = Inr needs2"
    "filter (\<lambda>n. itemType n = consumable_item) needs2
       = filter (\<lambda>n. itemType n = consumable_item) needs1"
    by blast
  from 1 2 show ?case by simp
qed

lemma consumableNeed_view:
  "map (\<lambda>n. (itemId n, need_quantity n, priority n))
     (filter (\<lambda>n. itemType n = consumable_item) (consumableNeed uuid now needs c))
   = map (\<lambda>n. (itemId n, need_quantity n, priority n)) (filter (\<lambda>n. itemType n = consumable_item) needs)
     @ (if stockLevel c \<le> reorderPoint c
        then [(c_id c, fsub (fmul (reorderPoint c) 2) (stockLevel c),
               if stockLevel c \<le> minimumStock c then high else medium)]
        else [])"
  by (simp add: consumableNeed_def Let_def)

lemma foldl_consumableNeed_view:
  "map (\<lambda>n. (itemId n, need_quantity n, priority n))
     (filter (\<lambda>n. itemType n = consumable_item) (foldl (consumableNeed uuid now) needs cs))
   = map (\<lambda>n. (itemId n, need_quantity n, priority n)) (filter (\<lambda>n. itemType n = consumable_item) needs)
     @ map (\<lambda>c. (c_id c, fsub (fmul (reorderPoint c) 2) (stockLevel c),
               if stockLevel c \<le> minimumStock c then high else medium))
         (filter (\<lambda>c. stockLevel c \<le> reorderPoint c) cs)"
proof (induction cs arbitrary: needs)
  case Nil
  then show ?case by simp
next
  case (Cons c cs)
  show ?case
    by (simp only: foldl_Cons Cons.IH consumableNeed_view) simp
qed

text \<open>
  \<open>generateProcurementNeeds\<close> raises \<open>RangeError\<close> as soon as the replacement
  prediction of one asset of the input does, and returns no need then.
\<close>

lemma generateProcurementNeeds_raises:
  assumes "eq \<in> set equipment" "predictReplacement host eq = Inl RangeError"
  shows "generateProcurementNeeds host uuid now equipment consumables_list = Inl RangeError"
  using equipmentNeeds_raises [OF assms, of uuid now "[]"]
  by (simp add: generateProcurementNeeds_def)

text \<open>
  When the replacement prediction of every asset returns, \<open>generateProcurementNeeds\<close>
  returns, and among its needs those for consumables are, up to order, one need for each
  consumable of the input with \<open>stockLevel \<le> reorderPoint\<close>, with quantity
  \<open>reorderPoint * 2 - stockLevel\<close> as computed in binary64 and priority high if
  \<open>stockLevel \<le> minimumStock\<close>, medium otherwise; a consumable above its reorder
  point contributes none.
\<close>

lemma generateProcurementNeeds_returns:
  assumes "\<forall>eq \<in> set equipment. predictReplacement host eq \<noteq> Inl RangeError"
  shows "\<exists>needs. generateProcurementNeeds host uuid now equipment consumables_list = Inr needs
           \<and> mset (map (\<lambda>n. (itemId n, need_quantity n, priority n))
                    (filter (\<lambda>n. itemType n = consumable_item) needs))
             = mset (map (\<lambda>c. (c_id c, fsub (fmul (reorderPoint c) 2) (stockLevel c),
                                 if stockLevel c \<le> minimumStock c then high else medium))
                       (filter (\<lambda>c. stockLevel c \<le> reorderPoint c) consumables_list))"
proof -
  from equipmentNeeds_returns [OF assms, of uuid now "[]"]
  obtain needs1 where 1: "equipmentNeeds host uuid now [] equipment = Inr needs1"
    "filter (\<lambda>n. itemType n = consumable_item) needs1 = []"
    by auto
  let ?needs = "foldl (consumableNeed uuid now) needs1 consumables_list"
  have "mset (map (\<lambda>n. (itemId n, need_quantity n, priority n))
          (filter (\<lambda>n. itemType n = consumable_item) (sort_key (\<lambda>n. priorityOrder (priority n)) ?needs)))
      = mset (map (\<lambda>n. (itemId n, need_quantity n, priority n))
          (filter (\<lambda>n. itemType n = consumable_item) ?needs))"
    by (simp only: mset_map mset_filter mset_sort)
  also have "\<dots> = mset (map (\<lambda>c. (c_id c, fsub (fmul (reorderPoint c) 2) (stockLevel c),
                       if stockLevel c \<le> minimumStock c then high else medium))
             (filter (\<lambda>c. stockLevel c \<le> reorderPoint c) consumables_list))"
    by (simp only: foldl_consumableNeed_view 1(2)) simp
  finally show ?thesis
    using 1(1) by (simp add: generateProcurementNeeds_def)
qed

text \<open>
  With the scenario asset, the consumable with stock 5, minimum 10 and reorder point 20
  gives one need of quantity 35 and priority high; a second consumable with stock 21
  gives none.
\<close>

lemma scenario_needs:
  "\<exists>needs. generateProcurementNeeds scenario_host (\<lambda>k. []) scenario_now [scenario_asset]
       [scenario_consumable, scenario_consumable\<lparr>c_id := ''c2'', stockLevel := 21\<rparr>] = Inr needs
     \<and> mset (map (\<lambda>n. (itemId n, need_quantity n, priority n))
          (filter (\<lambda>n. itemType n = consumable_item) needs)) = {#(''c1'', 35, high)#}"
proof -
  have "\<forall>eq \<in> set [scenario_asset]. predictReplacement scenario_host eq \<noteq> Inl RangeError"
    by (simp add: predictReplacement_cases dailyRate_def fmul_def timeAfterDays_def msPerDay_def)
  from generateProcurementNeeds_returns [OF this, of "\<lambda>k. []" scenario_now
      "[scenario_consumable, scenario_consumable\<lparr>c_id := ''c2'', stockLevel := 21\<rparr>]"]
  show ?thesis by (simp add: fsub_def fmul_def)
qed

lemma long_lived_simps [simp]:
  "currentValue (degradation long_lived_asset) = 1000000000"
  "maxValue (degradation long_lived_asset) = 1000000000"
  "degradationRate (degradation long_lived_asset) = 1"
  "deg_type (degradation long_lived_asset) = cycles"
  by (simp_all add: long_lived_asset_def scenario_degradation_def)

lemma long_lived_raises: "predictReplacement scenario_host long_lived_asset = Inl RangeError"
  by (simp add: predictReplacement_cases dailyRate_def fmul_def timeAfterDays_def msPerDay_def)

text \<open>
  Claim C5 at a failing input. The input holds the scenario's consumable (stock 5,
  reorder point 20) and one asset with a thousand million cycles left at one cycle a day.
  On a host whose clock reads 2024-01-03 the replacement date of that asset is beyond
  what a \<open>Date\<close> can hold, \<open>toISOString\<close> raises \<open>RangeError\<close>, and
  \<open>generateProcurementNeeds\<close> ends with that error: no need is returned for the
  consumable.
\<close>

theorem needs_raise_range_error:
  "stockLevel scenario_consumable \<le> reorderPoint scenario_consumable
   \<and> generateProcurementNeeds scenario_host (\<lambda>k. []) scenario_now
        [long_lived_asset] [scenario_consumable] = Inl RangeError"
  using generateProcurementNeeds_raises [of long_lived_asset "[long_lived_asset]" scenario_host]
  by (simp add: long_lived_raises)

text \<open>
  The same happens on every host for an asset with a degradation rate of zero, whose
  days until replacement are not finite.
\<close>

lemma needs_raise_at_rate_zero:
  "generateProcurementNeeds host uuid now [with_rate 0 scenario_asset] cs = Inl RangeError"
  by (rule generateProcurementNeeds_raises [of "with_rate 0 scenario_asset"])
     (simp_all add: predictReplacement_zero_rate)

section \<open>Budgeted procurement plan\<close>

lemma fsub_nonneg: "b \<le> a \<Longrightarrow> 0 \<le> fsub a b"
  by (simp add: fsub_def fl_nonneg)

lemma remainingAfter_Nil [simp]: "remainingAfter budget [] = budget"
  by (simp add: remainingAfter_def)

lemma remainingAfter_snoc [simp]:
  "remainingAfter budget (needs @ [n]) = fsub (remainingAfter budget needs) (estimatedCost n)"
  by (simp add: remainingAfter_def)

lemma within_budget_accept:
  assumes "within_budget budget (needs, remaining)" "estimatedCost n \<le> remaining"
  shows "within_budget budget (needs @ [n], fsub remaining (estimatedCost n))"
proof -
  from assms(1) have r: "remaining = remainingAfter budget needs"
    and p: "\<forall>k < length needs.
              estimatedCost (needs ! k) \<le> remainingAfter budget (take k needs)"
    by (simp_all add: within_budget_def)
  have "estimatedCost ((needs @ [n]) ! k) \<le> remainingAfter budget (take k (needs @ [n]))"
    if "k < length (needs @ [n])" for k
  proof (cases "k < length needs")
    case True
    with p show ?thesis by (simp add: nth_append)
  next
    case False
    with that have "k = length needs" by simp
    with assms(2) r show ?thesis by simp
  qed
  moreover from assms(2) have "0 \<le> fsub remaining (estimatedCost n)"
    by (rule fsub_nonneg)
  ultimately show ?thesis
    using r by (simp add: within_budget_def)
qed

lemma planEquipment_within_budget:
  assumes "within_budget budget acc"
  shows "within_budget budget (planEquipment uuid now acc eq)"
proof (cases "mp_priority (predictMaintenanceNeeds eq \<lparr>cyclesPerDay = None, hoursPerDay = None\<rparr>) = high
              \<and> snd acc \<ge> acquisitionCost eq")
  case True
  let ?n = "\<lparr>need_id = uuid (length (fst acc)), itemType = equipment_item, itemId = eq_id eq,
             need_quantity = 1, estimatedCost = acquisitionCost eq, priority = high,
             reason = CriticalReplacement (daysUntilMaintenance
                        (predictMaintenanceNeeds eq \<lparr>cyclesPerDay = None, hoursPerDay = None\<rparr>)),
             requestDate = now, need_status = pending\<rparr>"
  from True have "planEquipment uuid now acc eq = (fst acc @ [?n], fsub (snd acc) (estimatedCost ?n))"
    by (simp add: planEquipment_def Let_def)
  moreover from True assms have "within_budget budget (fst acc @ [?n], fsub (snd acc) (estimatedCost ?n))"
    by (intro within_budget_accept) simp_all
  ultimately show ?thesis by simp
next
  case False
  then have "planEquipment uuid now acc eq = acc"
    by (auto simp: planEquipment_def Let_def)
  with assms show ?thesis by simp
qed

lemma planConsumable_within_budget:
  assumes "within_budget budget acc"
  shows "within_budget budget (planConsumable uuid now acc c)"
proof (cases "snd acc \<ge> fmul (max (fsub (reorderPoint c) (stockLevel c))
                                (of_int \<lceil>fmul (minimumStock c) 1.5\<rceil>)) (costPerUnit c)")
  case True
  let ?q = "max (fsub (reorderPoint c) (stockLevel c)) (of_int \<lceil>fmul (minimumStock c) 1.5\<rceil>)"
  let ?n = "\<lparr>need_id = uuid (length (fst acc)), itemType = consumable_item, itemId = c_id c,
             need_quantity = ?q, estimatedCost = fmul ?q (costPerUnit c),
             priority = (if stockLevel c = 0 then high else medium),
             reason = BelowMinimum (stockLevel c) (minimumStock c),
             requestDate = now, need_status = pending\<rparr>"
  from True have "planConsumable uuid now acc c = (fst acc @ [?n], fsub (snd acc) (estimatedCost ?n))"
    by (simp add: planConsumable_def Let_def)
  moreover from True assms have "within_budget budget (fst acc @ [?n], fsub (snd acc) (estimatedCost ?n))"
    by (intro within_budget_accept) simp_all
  ultimately show ?thesis by simp
next
  case False
  then have "planConsumable uuid now acc c = acc"
    by (auto simp: planConsumable_def Let_def)
  with assms show ?thesis by simp
qed

lemma foldl_planEquipment_within_budget:
  "within_budget budget acc \<Longrightarrow> within_budget budget (foldl (planEquipment uuid now) acc eqs)"
  by (induction eqs arbitrary: acc) (simp_all add: planEquipment_within_budget)

lemma foldl_planConsumable_within_budget:
  "within_budget budget acc \<Longrightarrow> within_budget budget (foldl (planConsumable uuid now) acc cs)"
  by (induction cs arbitrary: acc) (simp_all add: planConsumable_within_budget)

lemma within_budget_start: "0 \<le> budget \<Longrightarrow> within_budget budget ([], budget)"
  by (simp add: within_budget_def)

lemma planEquipment_funded:
  assumes "\<forall>n \<in> set (fst acc). fully_funded E C n" "eq \<in> E"
  shows "\<forall>n \<in> set (fst (planEquipment uuid now acc eq)). fully_funded E C n"
  using assms by (auto simp: planEquipment_def Let_def fully_funded_def)

lemma planConsumable_funded:
  assumes "\<forall>n \<in> set (fst acc). fully_funded E C n" "c \<in> C" "stockLevel c \<le> minimumStock c"
  shows "\<forall>n \<in> set (fst (planConsumable uuid now acc c)). fully_funded E C n"
  using assms by (auto simp: planConsumable_def Let_def fully_funded_def)

lemma foldl_planEquipment_funded:
  "\<forall>n \<in> set (fst acc). fully_funded E C n \<Longrightarrow> set eqs \<subseteq> E \<Longrightarrow>
   \<forall>n \<in> set (fst (foldl (planEquipment uuid now) acc eqs)). fully_funded E C n"
proof (induction eqs arbitrary: acc)
  case Nil
  then show ?case by simp
next
  case (Cons e eqs)
  from Cons.prems have "\<forall>n \<in> set (fst (planEquipment uuid now acc e)). fully_funded E C n"
    by (intro planEquipment_funded) simp_all
  with Cons.prems show ?case
    by (simp add: Cons.IH)
qed

lemma foldl_planConsumable_funded:
  "\<forall>n \<in> set (fst acc). fully_funded E C n \<Longrightarrow>
   \<forall>c \<in> set cs. c \<in> C \<and> stockLevel c \<le> minimumStock c \<Longrightarrow>
   \<forall>n \<in> set (fst (foldl (planConsumable uuid now) acc cs)). fully_funded E C n"
proof (induction cs arbitrary: acc)
  case Nil
  then show ?case by simp
next
  case (Cons c cs)
  from Cons.prems have "\<forall>n \<in> set (fst (planConsumable uuid now acc c)). fully_funded E C n"
    by (intro planConsumable_funded) simp_all
  with Cons.prems show ?case
    by (simp add: Cons.IH)
qed

lemma set_insert_by [simp]: "set (insert_by cmp x ys) = insert x (set ys)"
  by (induction ys) auto

lemma set_sort_by [simp]: "set (sort_by cmp xs) = set xs"
  by (induction xs) (simp_all add: sort_by_def)

text \<open>
  For a budget and costs that are whole numbers, the budget at most \<open>2^53\<close> and
  no cost negative, the subtractions are exact: what remains is the budget less the sum
  of the accepted costs.
\<close>

lemma whole_costs_exact:
  assumes "budget \<in> \<int>" "0 \<le> budget" "budget \<le> 2 ^ 53"
      and "\<forall>n \<in> set needs. estimatedCost n \<in> \<int> \<and> 0 \<le> estimatedCost n"
      and "\<forall>k < length needs. estimatedCost (needs ! k) \<le> remainingAfter budget (take k needs)"
  shows "remainingAfter budget needs = budget - sum_list (map estimatedCost needs)
         \<and> remainingAfter budget needs \<in> \<int>
         \<and> 0 \<le> remainingAfter budget needs \<and> remainingAfter budget needs \<le> budget"
  using assms(4,5)
proof (induction needs rule: rev_induct)
  case Nil
  with assms(1,2) show ?case by simp
next
  case (snoc n needs)
  have p2: "\<forall>k < length needs. estimatedCost (needs ! k) \<le> remainingAfter budget (take k needs)"
  proof (intro allI impI)
    fix k assume k: "k < length needs"
    with snoc.prems(2) have "estimatedCost ((needs @ [n]) ! k)
        \<le> remainingAfter budget (take k (needs @ [n]))"
      by simp
    with k show "estimatedCost (needs ! k) \<le> remainingAfter budget (take k needs)"
      by (simp add: nth_append)
  qed
  from snoc.prems(1)
  have p1: "\<forall>n \<in> set needs. estimatedCost n \<in> \<int> \<and> 0 \<le> estimatedCost n"
    by simp
  from snoc.IH [OF p1 p2]
  have ih: "remainingAfter budget needs = budget - sum_list (map estimatedCost needs)"
    "remainingAfter budget needs \<in> \<int>" "0 \<le> remainingAfter budget needs"
    "remainingAfter budget needs \<le> budget"
    by blast+
  from snoc.prems(1) have c: "estimatedCost n \<in> \<int>" "0 \<le> estimatedCost n" by simp_all
  from snoc.prems(2) have le: "estimatedCost n \<le> remainingAfter budget needs"
    by (metis length_append_singleton lessI nth_append_length take_all_iff order_refl butlast_snoc
          take_Suc_conv_app_nth append_eq_conv_conj)
  have "remainingAfter budget needs - estimatedCost n \<in> \<int>"
    using ih(2) c(1) by (rule Ints_diff)
  moreover have "\<bar>remainingAfter budget needs - estimatedCost n\<bar> \<le> 2 ^ 53"
    using le c(2) ih(4) assms(3) by linarith
  ultimately have "fl (remainingAfter budget needs - estimatedCost n)
      = remainingAfter budget needs - estimatedCost n"
    by (rule fl_Ints)
  then have e: "remainingAfter budget (needs @ [n]) = remainingAfter budget needs - estimatedCost n"
    by (simp add: fsub_def)
  from ih(2) c(1) have "remainingAfter budget needs - estimatedCost n \<in> \<int>"
    by (rule Ints_diff)
  moreover from ih(1) have "remainingAfter budget needs - estimatedCost n
      = budget - sum_list (map estimatedCost (needs @ [n]))"
    by simp
  moreover from le have "0 \<le> remainingAfter budget needs - estimatedCost n" by simp
  moreover from ih(4) c(2) have "remainingAfter budget needs - estimatedCost n \<le> budget"
    by linarith
  ultimately show ?case
    by (simp only: e)
qed

text \<open>
  Claim C6, as the code has it. For a budget that is not negative, every need of the plan
  cost no more than what remained of the budget when it was accepted, the remainder being
  lowered at each acceptance by a binary64 subtraction; every need is funded in full
  (its estimated cost is the whole acquisition cost of an asset, or the whole cost of a
  consumable's order quantity); and what remains at the end is not negative. When the
  budget is a whole number of at most \<open>2^53\<close> and the estimated costs of the plan
  are whole numbers that are not negative, the estimated costs of the plan sum to at most
  the budget.
\<close>

theorem plan_within_budget:
  assumes "0 \<le> budget"
  shows "(\<forall>k < length (generateProcurementPlan uuid now equipment consumables_list budget).
            estimatedCost (generateProcurementPlan uuid now equipment consumables_list budget ! k)
              \<le> remainingAfter budget
                   (take k (generateProcurementPlan uuid now equipment consumables_list budget)))
         \<and> (\<forall>n \<in> set (generateProcurementPlan uuid now equipment consumables_list budget).
              fully_funded (set equipment) (set consumables_list) n)
         \<and> 0 \<le> remainingAfter budget
                  (generateProcurementPlan uuid now equipment consumables_list budget)
         \<and> (budget \<in> \<int> \<and> budget \<le> 2 ^ 53
              \<and> (\<forall>n \<in> set (generateProcurementPlan uuid now equipment consumables_list budget).
                    estimatedCost n \<in> \<int> \<and> 0 \<le> estimatedCost n)
              \<longrightarrow> sum_list (map estimatedCost
                     (generateProcurementPlan uuid now equipment consumables_list budget))
                    \<le> budget)"
proof -
  let ?acc1 = "foldl (planEquipment uuid now) ([], budget) equipment"
  let ?cs = "sort_by stockRatioCompare (filter (\<lambda>c. stockLevel c \<le> minimumStock c) consumables_list)"
  let ?acc2 = "foldl (planConsumable uuid now) ?acc1 ?cs"
  have plan: "generateProcurementPlan uuid now equipment consumables_list budget = fst ?acc2"
    by (simp add: generateProcurementPlan_def Let_def)
  have "within_budget budget ?acc2"
    using assms
    by (intro foldl_planConsumable_within_budget foldl_planEquipment_within_budget within_budget_start)
  then have a: "\<forall>k < length (fst ?acc2).
            estimatedCost (fst ?acc2 ! k) \<le> remainingAfter budget (take k (fst ?acc2))"
    and b: "0 \<le> remainingAfter budget (fst ?acc2)"
    by (simp_all add: within_budget_def)
  have "\<forall>n \<in> set (fst ?acc1). fully_funded (set equipment) (set consumables_list) n"
    by (intro foldl_planEquipment_funded) simp_all
  then have c: "\<forall>n \<in> set (fst ?acc2). fully_funded (set equipment) (set consumables_list) n"
    by (intro foldl_planConsumable_funded) simp_all
  have d: "sum_list (map estimatedCost (fst ?acc2)) \<le> budget"
    if "budget \<in> \<int> \<and> budget \<le> 2 ^ 53
        \<and> (\<forall>n \<in> set (fst ?acc2). estimatedCost n \<in> \<int> \<and> 0 \<le> estimatedCost n)"
  proof -
    from that assms a
    have "remainingAfter budget (fst ?acc2) = budget - sum_list (map estimatedCost (fst ?acc2))"
      by (intro whole_costs_exact [THEN conjunct1]) simp_all
    with b show ?thesis by simp
  qed
  from a b c d show ?thesis
    unfolding plan by blast
qed

lemma fl_pos_iff [simp]: "0 < fl x \<longleftrightarrow> 0 < x"
proof
  assume "0 < fl x"
  with fl_nonpos [of x] show "0 < x" by linarith
qed (rule fl_pos)

lemma worn_asset_simps [simp]:
  "eq_id (worn_asset i c) = i" "acquisitionCost (worn_asset i c) = c"
  "currentValue (degradation (worn_asset i c)) = 30"
  "maxValue (degradation (worn_asset i c)) = 100"
  "degradationRate (degradation (worn_asset i c)) = 1"
  "deg_type (degradation (worn_asset i c)) = cycles"
  by (simp_all add: worn_asset_def with_health_def)

lemma worn_asset_high [simp]:
  "mp_priority (predictMaintenanceNeeds (worn_asset i c) \<lparr>cyclesPerDay = None, hoursPerDay = None\<rparr>)
     = high"
  by (simp add: predictMaintenanceNeeds_def or_default_def fmul_def fsub_def Let_def)

lemma with_health_high:
  "mp_priority (predictMaintenanceNeeds (with_health 30 100) \<lparr>cyclesPerDay = None, hoursPerDay = None\<rparr>)
     = high"
  by (simp add: predictMaintenanceNeeds_def or_default_def fmul_def fsub_def Let_def)

lemma fl_half [simp]: "fl (1 / 2) = 1 / 2"
  using fl_dyadic [of 1 "- 1"] by (simp add: power_int_minus)

lemma tenth_below_half: "fl (1 / 10) < 1 / 2"
proof -
  have "fl (1 / 10) \<le> fl (1 / 4)" by (rule fl_mono) simp
  also have "fl (1 / 4) = 1 / 4"
    using fl_dyadic [of 1 "- 2"] by (simp add: power_int_minus)
  finally show ?thesis by simp
qed

text \<open>
  Witness for C6: with a budget of 1050, an asset at 30 of 100 (5 days from maintenance,
  cost 1000) is accepted, then the more depleted consumable (cost 38), and the other
  consumable (cost 30) no longer fits.
\<close>

theorem plan_within_budget_witness:
  "(0::real) \<le> 1050 \<and> (1050::real) \<in> \<int> \<and> (1050::real) \<le> 2 ^ 53
   \<and> map (\<lambda>n. (itemId n, estimatedCost n))
        (generateProcurementPlan (\<lambda>k. []) scenario_now [with_health 30 100]
           [scenario_consumable, scenario_consumable\<lparr>c_id := ''c2'', stockLevel := 1\<rparr>] 1050)
       = [(''a1'', 1000), (''c2'', 38)]
   \<and> sum_list (map estimatedCost
        (generateProcurementPlan (\<lambda>k. []) scenario_now [with_health 30 100]
           [scenario_consumable, scenario_consumable\<lparr>c_id := ''c2'', stockLevel := 1\<rparr>] 1050))
       \<le> 1050"
proof -
  have p: "generateProcurementPlan (\<lambda>k. []) scenario_now [with_health 30 100]
           [scenario_consumable, scenario_consumable\<lparr>c_id := ''c2'', stockLevel := 1\<rparr>] 1050
       = [\<lparr>need_id = [], itemType = equipment_item, itemId = ''a1'', need_quantity = 1,
            estimatedCost = 1000, priority = high, reason = CriticalReplacement (Fin 5),
            requestDate = scenario_now, need_status = pending\<rparr>,
          \<lparr>need_id = [], itemType = consumable_item, itemId = ''c2'', need_quantity = 19,
            estimatedCost = 38, priority = medium, reason = BelowMinimum 1 10,
            requestDate = scenario_now, need_status = pending\<rparr>]"
    using tenth_below_half
    by (simp add: generateProcurementPlan_def planEquipment_def planConsumable_def
          predictMaintenanceNeeds_def or_default_def sort_by_def stockRatioCompare_def
          jsub_def fmul_def fsub_def Let_def)
  from plan_within_budget [of 1050 "\<lambda>k. []" scenario_now "[with_health 30 100]"
          "[scenario_consumable, scenario_consumable\<lparr>c_id := ''c2'', stockLevel := 1\<rparr>]"]
  show ?thesis by (simp add: p)
qed

text \<open>
  The binary64 numbers nearest to 467.66, 543.2 and 1010.86, and the binary64 difference
  of the last and the first, which is the second.
\<close>

lemma binary64_46766: "fl 467.66 = 8227161725531587 / 17592186044416"
  by (subst fl_eval [where e = 8]) (simp_all add: rne_def)

lemma binary64_5432: "fl 543.2 = 2389018864831693 / 4398046511104"
  by (subst fl_eval [where e = 9]) (simp_all add: rne_def)

lemma binary64_101086: "fl 1010.86 = 8891618592429179 / 8796093022208"
  by (subst fl_eval [where e = 9]) (simp_all add: rne_def)

lemma budget_difference:
  "fl (9556075459326771 / 17592186044416) = 2389018864831693 / 4398046511104"
  by (subst fl_eval [where e = 9]) (simp_all add: rne_def)

text \<open>
  Counterexample for C6 as stated: with a budget of 1010.86 and two assets due for
  maintenance that cost 467.66 and 543.2 (all three as binary64 numbers), both assets are
  accepted, because \<open>1010.86 - 467.66\<close> rounds to \<open>543.2\<close>, and the two
  costs sum to more than the budget.
\<close>

theorem accepted_costs_exceed_budget:
  "map estimatedCost
     (generateProcurementPlan (\<lambda>k. []) scenario_now
        [worn_asset ''a1'' (8227161725531587 / 17592186044416),
         worn_asset ''a2'' (2389018864831693 / 4398046511104)]
        [] (8891618592429179 / 8796093022208))
     = [8227161725531587 / 17592186044416, 2389018864831693 / 4398046511104]
   \<and> (0::real) \<le> 8891618592429179 / 8796093022208
   \<and> (8891618592429179 / 8796093022208 :: real)
       < sum_list [8227161725531587 / 17592186044416, 2389018864831693 / 4398046511104]"
  by (simp add: generateProcurementPlan_def planEquipment_def sort_by_def fsub_def
        budget_difference Let_def)

section \<open>Combination validation\<close>

text \<open>
  What the loop does with its first line item: the item does not resolve, or asks for
  more than \<open>quantity - inUse\<close>, or reaches the call of \<open>getDegradation\<close>, which
  throws. The test of \<open>currentValue\<close> against 25 and the next iteration are never
  reached.
\<close>

lemma validateItems_Cons:
  "validateItems registry notAFunction (it # rest) =
     (case registry (item_id it) of
        None \<Rightarrow>
          \<lparr>valid = False, v_message = Some (''Equipment with ID '' @ item_id it @ '' not found'')\<rparr>
      | Some e \<Rightarrow>
          if quantity e - inUse e < item_quantity it then
            \<lparr>valid = False,
             v_message = Some (''Insufficient quantity of '' @ eq_name e @ '' available'')\<rparr>
          else \<lparr>valid = False, v_message = Some notAFunction\<rparr>)"
  by (simp add: getEquipment_def getDegradation_def Let_def split: option.splits)




text \<open>
  A combination of one unit of the scenario asset (5 units, none in use, full health) is
  rejected with the message of the \<open>TypeError\<close>.
\<close>

lemma healthy_combination_rejected:
  "validateCombination [''a1'' \<mapsto> scenario_asset] notAFunction
     (scenario_combination [\<lparr>item_id = ''a1'', item_quantity = 1\<rparr>])
   = \<lparr>valid = False, v_message = Some notAFunction\<rparr>"
  by (simp add: validateCombination_def scenario_combination_def validateItems_Cons
        del: validateItems.simps(2))



section \<open>Cost projection\<close>

lemma calculateDegradation_days_only:
  assumes "deg_type (degradation item) \<noteq> time"
  shows "currentValue (calculateDegradation now item \<lparr>u_cycles = None, u_hours = None, u_days = d\<rparr>)
           = currentValue (degradation item)
         \<and> maxValue (calculateDegradation now item \<lparr>u_cycles = None, u_hours = None, u_days = d\<rparr>)
           = maxValue (degradation item)"
  using assms by (cases "deg_type (degradation item)") (simp_all add: calculateDegradation_def)

lemma degradationFactor_non_time:
  assumes "deg_type (degradation item) \<noteq> time"
  shows "degradationFactor now index item
           = jdiv (currentValue (degradation item)) (maxValue (degradation item))"
  using calculateDegradation_days_only [OF assms]
  by (simp add: degradationFactor_def Let_def)

lemma monthlyReducer_non_time:
  assumes "deg_type (degradation item) \<noteq> time"
  shows "monthlyReducer now1 i totals item = monthlyReducer now2 j totals item"
  by (simp add: monthlyReducer_def degradationFactor_non_time [OF assms])

lemma foldl_monthlyReducer_non_time:
  assumes "\<forall>item \<in> set equipment. deg_type (degradation item) \<noteq> time"
  shows "foldl (monthlyReducer now1 i) totals equipment = foldl (monthlyReducer now2 j) totals equipment"
  using assms
proof (induction equipment arbitrary: totals)
  case Nil
  show ?case by simp
next
  case (Cons item equipment)
  then have "monthlyReducer now1 i totals item = monthlyReducer now2 j totals item"
    by (intro monthlyReducer_non_time) simp
  with Cons show ?case by simp
qed

lemma monthlyCosts_non_time:
  assumes "\<forall>item \<in> set equipment. deg_type (degradation item) \<noteq> time"
  shows "monthlyCosts now1 equipment i = monthlyCosts now2 equipment j"
  by (simp add: monthlyCosts_def foldl_monthlyReducer_non_time [OF assms, of now1 i _ now2 j])

lemma projectCosts_non_time:
  assumes "\<forall>item \<in> set equipment. deg_type (degradation item) \<noteq> time"
      and "i < months" "j < months"
  shows "pc_monthly (projectCosts now monthDate equipment months) ! i
           = pc_monthly (projectCosts now monthDate equipment months) ! j"
  using assms(2,3)
  by (simp add: projectCosts_def Let_def comp_def monthlyCosts_non_time [OF assms(1), of now i now j])

text \<open>
  Claim C10. \<open>projectCosts\<close> hands \<open>calculateDegradation\<close> a usage with the field
  \<open>days\<close> only, so for an asset whose degradation type is cycles or hours the
  degradation factor is the same in every period, and so is what the asset adds to the
  period's costs, whatever the clock reads; an asset whose contribution differs between
  two periods has the type time.
\<close>

theorem usage_in_days_only:
  "(deg_type (degradation item) = cycles \<or> deg_type (degradation item) = hours \<longrightarrow>
      degradationFactor now1 i item = degradationFactor now2 j item
      \<and> monthlyReducer now1 i totals item = monthlyReducer now2 j totals item)
   \<and> (monthlyReducer now1 i totals item \<noteq> monthlyReducer now2 j totals item \<longrightarrow>
        deg_type (degradation item) = time)"
proof -
  have "degradationFactor now1 i item = degradationFactor now2 j item
        \<and> monthlyReducer now1 i totals item = monthlyReducer now2 j totals item"
    if "deg_type (degradation item) \<noteq> time"
    using that by (simp add: degradationFactor_non_time monthlyReducer_non_time [of item now1 i totals now2 j])
  then show ?thesis by auto
qed

text \<open>
  Witness for C10: the scenario asset (cycles) contributes the same in periods 0 and 11;
  the same asset with type time contributes an operational cost of 100 in period 0 and
  of 70 in period 1.
\<close>

theorem usage_in_days_only_witness:
  "deg_type (degradation scenario_asset) = cycles
   \<and> degradationFactor scenario_now 0 scenario_asset = degradationFactor scenario_now 11 scenario_asset
   \<and> monthlyReducer scenario_now 0 zeroCosts scenario_asset
       = monthlyReducer scenario_now 11 zeroCosts scenario_asset
   \<and> monthlyReducer scenario_now 0 zeroCosts time_asset
       \<noteq> monthlyReducer scenario_now 1 zeroCosts time_asset
   \<and> deg_type (degradation time_asset) = time"
proof -
  have c: "deg_type (degradation scenario_asset) = cycles"
    by (simp add: scenario_asset_def scenario_degradation_def)
  have ops: "cb_operational (monthlyReducer scenario_now 0 zeroCosts time_asset) = Fin 100"
    "cb_operational (monthlyReducer scenario_now 1 zeroCosts time_asset) = Fin 70"
    by (simp_all add: monthlyReducer_def degradationFactor_def calculateDegradation_def
          calculateEquipmentCosts_def calculateOperationalCost_def getHealthStatus_def
          healthPercentage_def zeroCosts_def time_asset_def scenario_asset_def
          scenario_degradation_def Let_def)
  have d: "monthlyReducer scenario_now 0 zeroCosts time_asset
             \<noteq> monthlyReducer scenario_now 1 zeroCosts time_asset"
  proof
    assume "monthlyReducer scenario_now 0 zeroCosts time_asset
              = monthlyReducer scenario_now 1 zeroCosts time_asset"
    then have "cb_operational (monthlyReducer scenario_now 0 zeroCosts time_asset)
                 = cb_operational (monthlyReducer scenario_now 1 zeroCosts time_asset)"
      by (rule arg_cong)
    then show False by (simp only: ops) simp
  qed
  from c d
    usage_in_days_only [where item = scenario_asset and ?now1.0 = scenario_now and i = 0
                          and ?now2.0 = scenario_now and j = 11 and totals = zeroCosts]
    usage_in_days_only [where item = time_asset and ?now1.0 = scenario_now and i = 0
                          and ?now2.0 = scenario_now and j = 1 and totals = zeroCosts]
  show ?thesis by blast
qed

section \<open>The store model and the record model agree\<close>

lemma getHealthStatus_h_rep:
  assumes "rep_equipment h a e"
  shows "getHealthStatus_h (VRef a) h = (Inr (getHealthStatus e), h)"
proof -
  from assms obtain p d pd where
    "cells h a = Some (Obj p)" "p ''degradation'' = Some (VRef d)"
    "cells h d = Some (Obj pd)" "pd ''maxValue'' = Some (VNum (maxValue (degradation e)))"
    "pd ''currentValue'' = Some (VNum (currentValue (degradation e)))"
    by (auto simp: rep_equipment_def rep_degradation_def)
  then show ?thesis
    by (simp add: getHealthStatus_h_def getHealthStatus_def healthPercentage_def bind_def ret_def
          get_prop_def get_num_def get_props_def Let_def)
qed

lemma getInventoryStatus_h_rep:
  assumes "rep_equipment h a e"
  shows "getInventoryStatus_h (VRef a) h = (Inr (getInventoryStatus e), h)"
proof -
  from assms obtain p d pd where
    "cells h a = Some (Obj p)" "p ''degradation'' = Some (VRef d)"
    "p ''quantity'' = Some (VNum (quantity e))" "p ''inUse'' = Some (VNum (inUse e))"
    "cells h d = Some (Obj pd)" "pd ''maxValue'' = Some (VNum (maxValue (degradation e)))"
    "pd ''currentValue'' = Some (VNum (currentValue (degradation e)))"
    by (auto simp: rep_equipment_def rep_degradation_def)
  then show ?thesis
    by (simp add: getInventoryStatus_h_def getInventoryStatus_def bind_def ret_def
          getHealthStatus_h_rep [OF assms] get_prop_def get_num_def get_props_def Let_def)
qed

lemma find_id_rep:
  assumes "list_all2 (\<lambda>v e. \<exists>a. v = VRef a \<and> rep_equipment h a e) vs es"
  shows "(find (\<lambda>e. eq_id e = i) es = None \<and> find_id i vs h = (Inr None, h))
         \<or> (\<exists>a e. find (\<lambda>e. eq_id e = i) es = Some e
                   \<and> find_id i vs h = (Inr (Some (VRef a)), h) \<and> rep_equipment h a e)"
  using assms
proof (induction vs es rule: list_all2_induct)
  case Nil
  show ?case by (simp add: ret_def)
next
  case (Cons v vs e es)
  from Cons.hyps(1) obtain a p where v: "v = VRef a" and r: "rep_equipment h a e"
    and p: "cells h a = Some (Obj p)" "p ''id'' = Some (VStr (eq_id e))"
    by (auto simp: rep_equipment_def)
  show ?case
  proof (cases "eq_id e = i")
    case True
    with v r p show ?thesis
      by (simp add: bind_def ret_def get_prop_def get_props_def)
  next
    case False
    with v p Cons.IH show ?thesis
      by (simp add: bind_def ret_def get_prop_def get_props_def)
  qed
qed

lemma type_name_eq [simp]:
  "(type_name t = ''cycles'') = (t = cycles)"
  "(type_name t = ''hours'') = (t = hours)"
  "(type_name t = ''time'') = (t = time)"
  by (cases t; simp add: type_name_def)+

text \<open>
  On an array of represented assets in a well-formed store, the store version of
  \<open>processEquipmentTransaction\<close> ends without a type error and returns what the
  record version returns: the same \<open>success\<close> and \<open>message\<close>, and an updated
  object that represents the record version's \<open>updatedEquipment\<close>.
\<close>

lemma processEquipmentTransaction_h_refines:
  assumes wf: "heap_wf h"
      and arr: "cells h arr = Some (Arr vs)"
      and rel: "list_all2 (\<lambda>v e. \<exists>a. v = VRef a \<and> rep_equipment h a e) vs es"
  shows "\<exists>r. fst (processEquipmentTransaction_h now tx (VRef arr) h) = Inr r
             \<and> r_success r = success (processEquipmentTransaction now tx es)
             \<and> r_message r = message (processEquipmentTransaction now tx es)
             \<and> (case r_updated r of
                  None \<Rightarrow> updatedEquipment (processEquipmentTransaction now tx es) = None
                | Some u \<Rightarrow>
                    \<exists>e'. updatedEquipment (processEquipmentTransaction now tx es) = Some e'
                         \<and> rep_equipment (snd (processEquipmentTransaction_h now tx (VRef arr) h)) u e')"
proof -
  from find_id_rep [OF rel, of "equipmentId tx"]
  consider (missing) "find (\<lambda>e. eq_id e = equipmentId tx) es = None"
      "find_id (equipmentId tx) vs h = (Inr None, h)"
    | (found) a e where "find (\<lambda>e. eq_id e = equipmentId tx) es = Some e"
      "find_id (equipmentId tx) vs h = (Inr (Some (VRef a)), h)" "rep_equipment h a e"
    by (elim disjE exE conjE)
  then show ?thesis
  proof cases
    case missing
    with arr show ?thesis
      by (simp add: processEquipmentTransaction_h_def processEquipmentTransaction_def bind_def
            get_elems_def failure_h_def ret_def)
  next
    case found
    from found(3) obtain p d pd where
      p: "cells h a = Some (Obj p)" "p ''id'' = Some (VStr (eq_id e))"
         "p ''acquisitionCost'' = Some (VNum (acquisitionCost e))"
         "p ''quantity'' = Some (VNum (quantity e))" "p ''inUse'' = Some (VNum (inUse e))"
         "p ''personnelRequired'' = Some (VNum (personnelRequired e))"
         "p ''degradation'' = Some (VRef d)"
      and pd: "cells h d = Some (Obj pd)"
         "pd ''type'' = Some (VStr (type_name (deg_type (degradation e))))"
         "pd ''maxValue'' = Some (VNum (maxValue (degradation e)))"
         "pd ''currentValue'' = Some (VNum (currentValue (degradation e)))"
         "pd ''replacementCost'' = Some (VNum (replacementCost (degradation e)))"
         "pd ''degradationRate'' = Some (VNum (degradationRate (degradation e)))"
         "pd ''lastUpdated'' = Some (VStr (lastUpdated (degradation e)))"
      by (auto simp: rep_equipment_def rep_degradation_def)
    from wf p(1) pd(1) have "a < nxt h" "d < nxt h"
      by (auto simp: heap_wf_def)
    then have lt: "a \<noteq> nxt h" "d \<noteq> nxt h" "d \<noteq> Suc (nxt h)"
      by simp_all
    note st = getInventoryStatus_h_rep [OF found(3)]
    note defs = processEquipmentTransaction_h_def processEquipmentTransaction_def bind_def
      get_elems_def failure_h_def success_h_def ret_def throw_def spread_def alloc_def
      get_props_def get_prop_def get_num_def set_prop_def rep_equipment_def rep_degradation_def
      Let_def
    show ?thesis
    proof (cases "tx_type tx")
      case acquisition
      with arr found(1,2) st p pd lt show ?thesis
        by (simp add: defs)
    next
      case deployment
      with arr found(1,2) st p pd lt show ?thesis
        by (simp add: defs)
    next
      case disposal
      with arr found(1,2) st p pd lt show ?thesis
        by (simp add: defs)
    next
      case return
      show ?thesis
      proof (cases "deg_type (degradation e)")
        case cycles
        with return arr found(1,2) st p pd lt show ?thesis
          by (simp add: defs calculateDegradation_h_def calculateDegradation_def degrade_def)
      next
        case hours
        with return arr found(1,2) st p pd lt show ?thesis
          by (simp add: defs calculateDegradation_h_def calculateDegradation_def degrade_def)
      next
        case time
        with return arr found(1,2) st p pd lt show ?thesis
          by (simp add: defs calculateDegradation_h_def calculateDegradation_def degrade_def)
      qed
    qed
  qed
qed

lemma find_id_rep_consumable:
  assumes "list_all2 (\<lambda>v c. \<exists>a. v = VRef a \<and> rep_consumable h a c) vs cs"
  shows "(find (\<lambda>c. c_id c = i) cs = None \<and> find_id i vs h = (Inr None, h))
         \<or> (\<exists>a c. find (\<lambda>c. c_id c = i) cs = Some c
                   \<and> find_id i vs h = (Inr (Some (VRef a)), h) \<and> rep_consumable h a c)"
  using assms
proof (induction vs cs rule: list_all2_induct)
  case Nil
  show ?case by (simp add: ret_def)
next
  case (Cons v vs c cs)
  from Cons.hyps(1) obtain a p where v: "v = VRef a" and r: "rep_consumable h a c"
    and p: "cells h a = Some (Obj p)" "p ''id'' = Some (VStr (c_id c))"
    by (auto simp: rep_consumable_def)
  show ?case
  proof (cases "c_id c = i")
    case True
    with v r p show ?thesis
      by (simp add: bind_def ret_def get_prop_def get_props_def)
  next
    case False
    with v p Cons.IH show ?thesis
      by (simp add: bind_def ret_def get_prop_def get_props_def)
  qed
qed

lemma processConsumableTransaction_h_refines:
  assumes arr: "cells h arr = Some (Arr vs)"
      and rel: "list_all2 (\<lambda>v c. \<exists>a. v = VRef a \<and> rep_consumable h a c) vs cs"
  shows "\<exists>r. fst (processConsumableTransaction_h tx (VRef arr) h) = Inr r
             \<and> r_success r = c_success (fst (processConsumableTransaction tx cs))
             \<and> r_message r = c_message (fst (processConsumableTransaction tx cs))
             \<and> (case r_updated r of
                  None \<Rightarrow> updatedConsumable (fst (processConsumableTransaction tx cs)) = None
                | Some u \<Rightarrow>
                    \<exists>c'. updatedConsumable (fst (processConsumableTransaction tx cs)) = Some c'
                         \<and> rep_consumable (snd (processConsumableTransaction_h tx (VRef arr) h)) u c')"
proof -
  from find_id_rep_consumable [OF rel, of "consumableId tx"]
  consider (missing) "find (\<lambda>c. c_id c = consumableId tx) cs = None"
      "find_id (consumableId tx) vs h = (Inr None, h)"
    | (found) a c where "find (\<lambda>c. c_id c = consumableId tx) cs = Some c"
      "find_id (consumableId tx) vs h = (Inr (Some (VRef a)), h)" "rep_consumable h a c"
    by (elim disjE exE conjE)
  then show ?thesis
  proof cases
    case missing
    with arr show ?thesis
      by (simp add: processConsumableTransaction_h_def processConsumableTransaction_def bind_def
            get_elems_def failure_h_def ret_def)
  next
    case found
    from found(3) obtain p where
      p: "cells h a = Some (Obj p)" "p ''id'' = Some (VStr (c_id c))"
         "p ''name'' = Some (VStr (c_name c))" "p ''unit'' = Some (VStr (c_unit c))"
         "p ''costPerUnit'' = Some (VNum (costPerUnit c))"
         "p ''stockLevel'' = Some (VNum (stockLevel c))"
         "p ''minimumStock'' = Some (VNum (minimumStock c))"
         "p ''reorderPoint'' = Some (VNum (reorderPoint c))"
      by (auto simp: rep_consumable_def)
    note defs = processConsumableTransaction_h_def processConsumableTransaction_def bind_def
      get_elems_def failure_h_def success_h_def ret_def throw_def spread_def alloc_def
      get_props_def get_prop_def get_num_def set_prop_def rep_consumable_def
      finishConsumable_h_def triggerReorder_h_def Let_def
    from arr found(1,2) p show ?thesis
      by (cases "ctx_type tx") (simp_all add: defs)
  qed
qed

section \<open>Transactions write to new objects only\<close>

lemma writes_above_ret: "P x \<Longrightarrow> writes_above n (ret x) P"
  by (simp add: writes_above_def ret_def)

lemma writes_above_throw: "writes_above n throw P"
  by (simp add: writes_above_def throw_def)

lemma writes_above_bind:
  assumes "writes_above n m P" and "\<And>x. P x \<Longrightarrow> writes_above n (f x) Q"
  shows "writes_above n (bind m f) Q"
  unfolding writes_above_def
proof (intro allI impI)
  fix h :: heap assume n: "n \<le> nxt h"
  obtain r h' where m: "m h = (r, h')" by (cases "m h")
  from assms(1) n m have h': "n \<le> nxt h'" "\<forall>a < n. cells h' a = cells h a"
    and r: "\<forall>x. r = Inr x \<longrightarrow> P x"
    by (auto simp: writes_above_def)
  show "n \<le> nxt (snd (bind m f h))
        \<and> (\<forall>a < n. cells (snd (bind m f h)) a = cells h a)
        \<and> (\<forall>x. fst (bind m f h) = Inr x \<longrightarrow> Q x)"
  proof (cases r)
    case (Inl e)
    with m h' show ?thesis by (simp add: bind_def)
  next
    case (Inr x)
    with r have "P x" by simp
    then have "writes_above n (f x) Q" by (rule assms(2))
    with h' have "n \<le> nxt (snd (f x h'))" "\<forall>a < n. cells (snd (f x h')) a = cells h' a"
      "\<forall>y. fst (f x h') = Inr y \<longrightarrow> Q y"
      by (auto simp: writes_above_def)
    with m Inr h' show ?thesis by (simp add: bind_def)
  qed
qed

lemma writes_above_weaken:
  "writes_above n m P \<Longrightarrow> (\<And>x. P x \<Longrightarrow> Q x) \<Longrightarrow> writes_above n m Q"
  by (simp add: writes_above_def)

lemma writes_above_alloc: "writes_above n (alloc ob) (\<lambda>a. n \<le> a)"
  by (simp add: writes_above_def alloc_def)

lemma writes_above_get_props: "writes_above n (get_props v) (\<lambda>_. True)"
  by (simp add: writes_above_def get_props_def split: val.splits option.splits obj.splits)

lemma writes_above_get_elems: "writes_above n (get_elems v) (\<lambda>_. True)"
  by (simp add: writes_above_def get_elems_def split: val.splits option.splits obj.splits)

lemma writes_above_get_prop: "writes_above n (get_prop v f) (\<lambda>_. True)"
  unfolding get_prop_def
  by (rule writes_above_bind [OF writes_above_get_props]) (rule writes_above_ret, simp)

lemma writes_above_get_num: "writes_above n (get_num v f) (\<lambda>_. True)"
  unfolding get_num_def
  by (rule writes_above_bind [OF writes_above_get_prop])
     (simp add: writes_above_ret writes_above_throw split: val.splits)

lemma writes_above_set_prop: "n \<le> a \<Longrightarrow> writes_above n (set_prop a f v) (\<lambda>_. True)"
  by (simp add: writes_above_def set_prop_def split: option.splits obj.splits)

lemma writes_above_spread: "writes_above n (spread v) (\<lambda>a. n \<le> a)"
  unfolding spread_def
  by (rule writes_above_bind [OF writes_above_get_props]) (rule writes_above_alloc)

lemma writes_above_find_id: "writes_above n (find_id ident vs) (\<lambda>_. True)"
proof (induction vs)
  case Nil
  show ?case by (simp add: writes_above_ret)
next
  case (Cons v vs)
  show ?case
    unfolding find_id.simps
    by (rule writes_above_bind [OF writes_above_get_prop]) (simp add: writes_above_ret Cons.IH)
qed

lemmas wa_read =
  writes_above_bind [OF writes_above_get_prop] writes_above_bind [OF writes_above_get_num]
  writes_above_bind [OF writes_above_get_elems] writes_above_bind [OF writes_above_find_id]

lemma writes_above_getHealthStatus: "writes_above n (getHealthStatus_h v) (\<lambda>_. True)"
  unfolding getHealthStatus_h_def Let_def
  by (intro wa_read writes_above_ret TrueI)

lemma writes_above_getInventoryStatus: "writes_above n (getInventoryStatus_h v) (\<lambda>_. True)"
  unfolding getInventoryStatus_h_def Let_def
  by (intro writes_above_bind [OF writes_above_getHealthStatus] wa_read writes_above_ret TrueI)

lemma writes_above_degrade: "n \<le> a \<Longrightarrow> writes_above n (degrade d a amount) (\<lambda>_. True)"
  unfolding degrade_def
  by (cases amount) (auto intro!: wa_read writes_above_ret writes_above_set_prop)

lemma writes_above_calculateDegradation:
  "writes_above n (calculateDegradation_h now v usage) (\<lambda>_. True)"
  unfolding calculateDegradation_h_def
  apply (rule wa_read)
  apply (rule writes_above_bind [OF writes_above_spread])
  apply (rule wa_read)
  apply (rule writes_above_bind [where P = "\<lambda>_. True"])
   apply (simp add: writes_above_degrade writes_above_ret)
  apply (rule writes_above_bind [OF writes_above_set_prop])
   apply assumption
  apply (rule writes_above_ret)
  apply simp
  done

lemma writes_above_failure:
  "writes_above n (failure_h msg) (\<lambda>r. \<forall>u. r_updated r = Some u \<longrightarrow> n \<le> u)"
  unfolding failure_h_def by (rule writes_above_ret) simp

lemma writes_above_success:
  "n \<le> a \<Longrightarrow> writes_above n (success_h a) (\<lambda>r. \<forall>u. r_updated r = Some u \<longrightarrow> n \<le> u)"
  unfolding success_h_def by (rule writes_above_ret) simp

lemma writes_above_processEquipmentTransaction:
  "writes_above n (processEquipmentTransaction_h now tx arr)
     (\<lambda>r. \<forall>u. r_updated r = Some u \<longrightarrow> n \<le> u)"
  unfolding processEquipmentTransaction_h_def
  apply (rule wa_read)
  apply (rule wa_read)
  subgoal for elems found
  proof (cases found)
    case None
    then show ?thesis by (simp add: writes_above_failure)
  next
    case (Some item)
    have body: "writes_above n
        (case tx_type tx of
           acquisition \<Rightarrow>
             bind (get_num (VRef u) ''quantity'') (\<lambda>q.
             bind (set_prop u ''quantity'' (VNum (q + tx_quantity tx))) (\<lambda>_.
               success_h u))
         | deployment \<Rightarrow>
             if available st < tx_quantity tx then failure_h ''Insufficient available equipment''
             else
               bind (get_num (VRef u) ''inUse'') (\<lambda>v.
               bind (set_prop u ''inUse'' (VNum (v + tx_quantity tx))) (\<lambda>_.
                 success_h u))
         | return \<Rightarrow>
             bind (get_num (VRef u) ''inUse'') (\<lambda>v.
               if v < tx_quantity tx then failure_h ''Invalid return quantity''
               else
                 bind (set_prop u ''inUse'' (VNum (v - tx_quantity tx))) (\<lambda>_.
                 bind (calculateDegradation_h now (VRef u)
                         \<lparr>u_cycles = Some 1, u_hours = None, u_days = None\<rparr>) (\<lambda>d.
                 bind (set_prop u ''degradation'' d) (\<lambda>_.
                   success_h u))))
         | disposal \<Rightarrow>
             bind (get_num (VRef u) ''quantity'') (\<lambda>q.
               if q < tx_quantity tx then failure_h ''Invalid disposal quantity''
               else
                 bind (set_prop u ''quantity'' (VNum (q - tx_quantity tx))) (\<lambda>_.
                   success_h u)))
        (\<lambda>r. \<forall>u. r_updated r = Some u \<longrightarrow> n \<le> u)"
      if u: "n \<le> u" for u st
      using u
      by (cases "tx_type tx")
         (auto intro!: wa_read writes_above_bind [OF writes_above_set_prop]
                 writes_above_bind [OF writes_above_calculateDegradation]
                 writes_above_success writes_above_failure)
    show ?thesis
      unfolding Some option.case
      by (rule writes_above_bind [OF writes_above_getInventoryStatus])
         (rule writes_above_bind [OF writes_above_spread], rule body)
  qed
  done


lemma writes_above_triggerReorder: "writes_above n (triggerReorder_h v) (\<lambda>_. True)"
  unfolding triggerReorder_h_def
  by (intro wa_read writes_above_ret TrueI)

lemma writes_above_finishConsumable:
  "n \<le> a \<Longrightarrow>
   writes_above n (finishConsumable_h a) (\<lambda>r. \<forall>u. r_updated r = Some u \<longrightarrow> n \<le> u)"
  unfolding finishConsumable_h_def
  apply (rule wa_read)
  apply (rule wa_read)
  apply (rule writes_above_bind [where P = "\<lambda>_. True"])
   apply (simp add: writes_above_triggerReorder writes_above_ret)
  apply (rule writes_above_success)
  apply assumption
  done

lemma writes_above_processConsumableTransaction:
  "writes_above n (processConsumableTransaction_h tx arr)
     (\<lambda>r. \<forall>u. r_updated r = Some u \<longrightarrow> n \<le> u)"
  unfolding processConsumableTransaction_h_def
  apply (rule wa_read)
  apply (rule wa_read)
  subgoal for elems found
  proof (cases found)
    case None
    then show ?thesis by (simp add: writes_above_failure)
  next
    case (Some item)
    have body: "writes_above n
        (case ctx_type tx of
           purchase \<Rightarrow>
             bind (set_prop u ''stockLevel'' (VNum (s + ctx_quantity tx))) (\<lambda>_.
               finishConsumable_h u)
         | use \<Rightarrow>
             if s < ctx_quantity tx then failure_h ''Insufficient stock''
             else
               bind (set_prop u ''stockLevel'' (VNum (s - ctx_quantity tx))) (\<lambda>_.
                 finishConsumable_h u)
         | c_disposal \<Rightarrow>
             if s < ctx_quantity tx then failure_h ''Invalid disposal quantity''
             else
               bind (set_prop u ''stockLevel'' (VNum (s - ctx_quantity tx))) (\<lambda>_.
                 finishConsumable_h u))
        (\<lambda>r. \<forall>u. r_updated r = Some u \<longrightarrow> n \<le> u)"
      if u: "n \<le> u" for u s
      using u
      by (cases "ctx_type tx")
         (auto intro!: writes_above_bind [OF writes_above_set_prop]
                 writes_above_finishConsumable writes_above_failure)
    show ?thesis
      unfolding Some option.case
      by (rule writes_above_bind [OF writes_above_spread])
         (rule writes_above_bind [OF writes_above_get_num], rule body)
  qed
  done

lemma writes_aboveD:
  assumes "writes_above n m P" "n \<le> nxt h"
  shows "\<forall>a < n. cells (snd (m h)) a = cells h a" and "\<forall>x. fst (m h) = Inr x \<longrightarrow> P x"
  using assms by (simp_all add: writes_above_def)

text \<open>
  Claim C9. In a well-formed store, \<open>processEquipmentTransaction\<close> and
  \<open>processConsumableTransaction\<close> leave every object that exists before the call
  (the array passed in, its elements, their degradation objects and everything else) as
  it was, whether the call succeeds, fails or ends in a type error; and the object a
  successful call returns as \<open>updatedEquipment\<close> or \<open>updatedConsumable\<close> is none
  of the objects that existed before.
\<close>

theorem inputs_not_mutated:
  assumes "heap_wf h"
  shows "(\<forall>a \<in> dom (cells h).
            cells (snd (processEquipmentTransaction_h now tx equipment h)) a = cells h a)
         \<and> (\<forall>r u. fst (processEquipmentTransaction_h now tx equipment h) = Inr r
                    \<and> r_updated r = Some u \<longrightarrow> u \<notin> dom (cells h))
         \<and> (\<forall>a \<in> dom (cells h).
              cells (snd (processConsumableTransaction_h ctx consumables_array h)) a = cells h a)
         \<and> (\<forall>r u. fst (processConsumableTransaction_h ctx consumables_array h) = Inr r
                    \<and> r_updated r = Some u \<longrightarrow> u \<notin> dom (cells h))"
proof -
  from assms have below: "a < nxt h" if "a \<in> dom (cells h)" for a
    using that by (simp add: heap_wf_def)
  have e: "\<forall>a < nxt h. cells (snd (processEquipmentTransaction_h now tx equipment h)) a = cells h a"
    and e': "\<forall>r. fst (processEquipmentTransaction_h now tx equipment h) = Inr r
                \<longrightarrow> (\<forall>u. r_updated r = Some u \<longrightarrow> nxt h \<le> u)"
    using writes_aboveD [OF writes_above_processEquipmentTransaction [of "nxt h" now tx equipment] order_refl]
    by simp_all
  have c: "\<forall>a < nxt h. cells (snd (processConsumableTransaction_h ctx consumables_array h)) a = cells h a"
    and c': "\<forall>r. fst (processConsumableTransaction_h ctx consumables_array h) = Inr r
                \<longrightarrow> (\<forall>u. r_updated r = Some u \<longrightarrow> nxt h \<le> u)"
    using writes_aboveD [OF writes_above_processConsumableTransaction [of "nxt h" ctx consumables_array] order_refl]
    by simp_all
  from e c below have "\<forall>a \<in> dom (cells h).
            cells (snd (processEquipmentTransaction_h now tx equipment h)) a = cells h a"
    and "\<forall>a \<in> dom (cells h).
            cells (snd (processConsumableTransaction_h ctx consumables_array h)) a = cells h a"
    by blast+
  moreover from e' below have "\<forall>r u. fst (processEquipmentTransaction_h now tx equipment h) = Inr r
                    \<and> r_updated r = Some u \<longrightarrow> u \<notin> dom (cells h)"
    by (metis not_less)
  moreover from c' below have "\<forall>r u. fst (processConsumableTransaction_h ctx consumables_array h) = Inr r
                    \<and> r_updated r = Some u \<longrightarrow> u \<notin> dom (cells h)"
    by (metis not_less)
  ultimately show ?thesis by blast
qed

lemma scenario_heap_wf: "heap_wf scenario_heap"
  by (simp add: heap_wf_def scenario_heap_def)

lemma scenario_return_h:
  "fst (processEquipmentTransaction_h scenario_now (scenario_tx return 1) (VRef 0) scenario_heap)
     = Inr \<lparr>r_success = True, r_message = ''Transaction processed successfully'',
            r_updated = Some 5\<rparr>"
  by (simp add: processEquipmentTransaction_h_def scenario_heap_def bind_def ret_def throw_def
        get_elems_def get_prop_def get_props_def get_num_def getInventoryStatus_h_def
        getHealthStatus_h_def spread_def alloc_def set_prop_def calculateDegradation_h_def
        degrade_def success_h_def failure_h_def scenario_tx_def Let_def)

lemma scenario_return_h_cells:
  "cells (snd (processEquipmentTransaction_h scenario_now (scenario_tx return 1) (VRef 0) scenario_heap)) 5
     = Some (Obj [''id'' \<mapsto> VStr ''a1'', ''name'' \<mapsto> VStr ''Platform A'',
                   ''acquisitionCost'' \<mapsto> VNum 1000, ''quantity'' \<mapsto> VNum 5,
                   ''inUse'' \<mapsto> VNum 1, ''degradation'' \<mapsto> VRef 6])"
  "cells (snd (processEquipmentTransaction_h scenario_now (scenario_tx return 1) (VRef 0) scenario_heap)) 6
     = Some (Obj [''type'' \<mapsto> VStr ''cycles'', ''maxValue'' \<mapsto> VNum 100,
                   ''currentValue'' \<mapsto> VNum 99, ''replacementCost'' \<mapsto> VNum 0,
                   ''degradationRate'' \<mapsto> VNum 1,
                   ''lastUpdated'' \<mapsto> VStr scenario_now])"
  by (simp_all add: processEquipmentTransaction_h_def scenario_heap_def bind_def ret_def throw_def
        get_elems_def get_prop_def get_props_def get_num_def getInventoryStatus_h_def
        getHealthStatus_h_def spread_def alloc_def set_prop_def calculateDegradation_h_def
        degrade_def success_h_def failure_h_def scenario_tx_def Let_def fun_upd_twist)

text \<open>
  Witness for C9: returning one unit in the scenario store succeeds with a new asset
  object at address 5 and a new degradation object at address 6, and the array, the
  asset and its degradation object at addresses 0, 1 and 2 are as before; a use of 3
  units of the consumable leaves the consumable at address 4 as before.
\<close>

theorem inputs_not_mutated_witness:
  "heap_wf scenario_heap
   \<and> fst (processEquipmentTransaction_h scenario_now (scenario_tx return 1) (VRef 0) scenario_heap)
       = Inr \<lparr>r_success = True, r_message = ''Transaction processed successfully'',
              r_updated = Some 5\<rparr>
   \<and> cells (snd (processEquipmentTransaction_h scenario_now (scenario_tx return 1) (VRef 0)
                    scenario_heap)) 0
       = cells scenario_heap 0
   \<and> cells (snd (processEquipmentTransaction_h scenario_now (scenario_tx return 1) (VRef 0)
                    scenario_heap)) 1
       = cells scenario_heap 1
   \<and> cells (snd (processEquipmentTransaction_h scenario_now (scenario_tx return 1) (VRef 0)
                    scenario_heap)) 2
       = cells scenario_heap 2
   \<and> cells (snd (processConsumableTransaction_h (scenario_ctx use 3) (VRef 3) scenario_heap)) 3
       = cells scenario_heap 3
   \<and> cells (snd (processConsumableTransaction_h (scenario_ctx use 3) (VRef 3) scenario_heap)) 4
       = cells scenario_heap 4"
proof -
  have d: "dom (cells scenario_heap) = {0, 1, 2, 3, 4}"
    by (auto simp: scenario_heap_def)
  from inputs_not_mutated [OF scenario_heap_wf, of scenario_now "scenario_tx return 1" "VRef 0"
         "scenario_ctx use 3" "VRef 3"]
  show ?thesis
    unfolding d using scenario_heap_wf scenario_return_h by blast
qed

end
